theory Spec2Isabelle
  imports Complex_Main
begin

section \<open>The BFGS Hessian update of the tutorial notebook 13c\<close>

text \<open>
  The notebook \<^verbatim>\<open>13c_Hessians-updating.ipynb\<close> ends with one cell that forms the
  displacement vectors and applies the BFGS formula to the guess Hessian:
  \<^verbatim>\<open>
  H_new = np.zeros( (Nintco,Nintco) , float)
  dg = np.zeros(Nintco, float)

  dq[:] = q_2 - q_1    # Change in internal values.
  dg[:] = f_q1 - f_q2  # Change in gradient values (not forces).

  gq = np.dot(dq, dg)  # A useful intermediate.

  for i in range(Nintco):
      for j in range(Nintco):
          H_new[i,j] = H[i,j] + dg[i] * dg[j] / gq

  Hdq = np.dot(H, dq)
  dqHdq = np.dot(dq, Hdq)

  for i in range(Nintco):
      for j in range(Nintco):
          H_new[i,j] -=  Hdq[i] * Hdq[j] / dqHdq
  \<close>
  The cell is embedded statement by statement: numpy arrays live in an explicit store,
  the notebook's variables hold references into it, the loops are recursion over
  \<open>range(Nintco)\<close>, and every exception numpy can raise here is a value that carries the
  store as it was when the exception was raised. The elements are IEEE 754 doubles; the
  two products \<open>np.dot\<close> computes are done by the linear-algebra library numpy is
  linked with, which the model takes as a parameter.
\<close>

subsection \<open>Array elements\<close>

text \<open>
  The arrays have dtype \<open>float\<close>: IEEE 754 binary64. An element is \<open>Fin x\<close> for a finite
  number \<open>x\<close> (\<open>Fin 0\<close> is \<open>+0.0\<close>), the negative zero \<open>NZero\<close>, one of the two
  infinities, or NaN.
\<close>

datatype float64 = Fin real | NZero | PInf | NInf | NaN

fun is_zero :: "float64 \<Rightarrow> bool" where
  "is_zero (Fin x) = (x = 0)"
| "is_zero NZero = True"
| "is_zero PInf = False"
| "is_zero NInf = False"
| "is_zero NaN = False"

fun is_inf :: "float64 \<Rightarrow> bool" where
  "is_inf (Fin x) = False"
| "is_inf NZero = False"
| "is_inf PInf = True"
| "is_inf NInf = True"
| "is_inf NaN = False"

fun is_finite :: "float64 \<Rightarrow> bool" where
  "is_finite (Fin x) = True"
| "is_finite NZero = True"
| "is_finite PInf = False"
| "is_finite NInf = False"
| "is_finite NaN = False"

text \<open>The sign bit, and the real value of a finite element.\<close>

fun negative :: "float64 \<Rightarrow> bool" where
  "negative (Fin x) = (x < 0)"
| "negative NZero = True"
| "negative PInf = False"
| "negative NInf = True"
| "negative NaN = False"

fun val :: "float64 \<Rightarrow> real" where
  "val (Fin x) = x"
| "val NZero = 0"
| "val PInf = 0"
| "val NInf = 0"
| "val NaN = 0"

definition signed_inf :: "bool \<Rightarrow> float64" where
  "signed_inf positive = (if positive then PInf else NInf)"

definition signed_zero :: "bool \<Rightarrow> float64" where
  "signed_zero positive = (if positive then Fin 0 else NZero)"

text \<open>
  Rounding of a real number other than zero to binary64, to nearest with ties to even.
  With \<open>2^e \<le> |x| < 2^(e+1)\<close> the spacing of the doubles around \<open>x\<close> is \<open>2^(e-52)\<close>, and
  \<open>2^(-1074)\<close> below \<open>2^(-1022)\<close> (the subnormal range); \<open>x\<close> is rounded to a multiple of
  the spacing. A result of magnitude \<open>2^1024\<close> or more overflows to an infinity, and a
  result that rounds to nothing underflows to a zero, both with the sign of \<open>x\<close>.
\<close>

definition round_even :: "real \<Rightarrow> int" where
  "round_even r =
     (let f = \<lfloor>r\<rfloor>; d = r - of_int f
      in if d < 1 / 2 then f else if 1 / 2 < d then f + 1 else if even f then f else f + 1)"

definition round64 :: "real \<Rightarrow> float64" where
  "round64 x =
     (let e = max \<lfloor>log 2 \<bar>x\<bar>\<rfloor> (- 1022);
          u = 2 powr of_int (e - 52);
          y = of_int (round_even (x / u)) * u
      in if 2 ^ 1024 \<le> \<bar>y\<bar> then signed_inf (0 < x)
         else if y = 0 then signed_zero (0 < x)
         else Fin y)"

text \<open>
  The operations of the cell on elements: \<open>-\<close> (unary and binary), \<open>+\<close>, \<open>*\<close> and \<open>/\<close> on
  numpy float64 scalars. Each is the IEEE operation: a NaN operand gives NaN; the
  infinities and the zeros follow the standard's tables, with the sign of a product or a
  quotient the exclusive or of the signs; otherwise the exact real result is rounded.
  numpy does not raise on a division by zero: \<open>x / 0\<close> is an infinity and \<open>0 / 0\<close> is NaN
  (it only warns). A sum that is exactly zero is \<open>+0.0\<close>, except that \<open>-0.0 + -0.0\<close> is
  \<open>-0.0\<close>. Subtraction is addition of the negated operand.
\<close>

fun fneg :: "float64 \<Rightarrow> float64" where
  "fneg (Fin x) = (if x = 0 then NZero else Fin (- x))"
| "fneg NZero = Fin 0"
| "fneg PInf = NInf"
| "fneg NInf = PInf"
| "fneg NaN = NaN"

definition fadd :: "float64 \<Rightarrow> float64 \<Rightarrow> float64" where
  "fadd a b =
     (if a = NaN \<or> b = NaN then NaN
      else if is_inf a then (if is_inf b \<and> b \<noteq> a then NaN else a)
      else if is_inf b then b
      else if val a + val b = 0 then (if a = NZero \<and> b = NZero then NZero else Fin 0)
      else round64 (val a + val b))"

definition fsub :: "float64 \<Rightarrow> float64 \<Rightarrow> float64" where
  "fsub a b = fadd a (fneg b)"

definition fmul :: "float64 \<Rightarrow> float64 \<Rightarrow> float64" where
  "fmul a b =
     (if a = NaN \<or> b = NaN then NaN
      else if is_inf a \<or> is_inf b
        then (if is_zero a \<or> is_zero b then NaN else signed_inf (negative a = negative b))
      else if is_zero a \<or> is_zero b then signed_zero (negative a = negative b)
      else round64 (val a * val b))"

text \<open>
  Division has two branches: \<open>zero_division\<close> is what a zero divisor gives, and
  \<open>nonzero_division\<close> is the division by a divisor that is not zero.
\<close>

definition zero_division :: "float64 \<Rightarrow> float64 \<Rightarrow> float64" where
  "zero_division a b =
     (if a = NaN \<or> is_zero a then NaN else signed_inf (negative a = negative b))"

definition nonzero_division :: "float64 \<Rightarrow> float64 \<Rightarrow> float64" where
  "nonzero_division a b =
     (if a = NaN \<or> b = NaN then NaN
      else if is_inf a then (if is_inf b then NaN else signed_inf (negative a = negative b))
      else if is_inf b then signed_zero (negative a = negative b)
      else if is_zero a then signed_zero (negative a = negative b)
      else round64 (val a / val b))"

definition fdiv :: "float64 \<Rightarrow> float64 \<Rightarrow> float64" where
  "fdiv a b = (if is_zero b then zero_division a b else nonzero_division a b)"

text \<open>The comparison \<open>==\<close>: NaN equals nothing, not even itself, and the two zeros are equal.\<close>

definition feq :: "float64 \<Rightarrow> float64 \<Rightarrow> bool" where
  "feq a b = (a \<noteq> NaN \<and> b \<noteq> NaN \<and> (a = b \<or> (is_zero a \<and> is_zero b)))"

subsection \<open>numpy arrays and the operations the cell uses\<close>

text \<open>
  A one-dimensional array is the list of its elements. A two-dimensional array has a
  shape \<open>(nrows, ncols)\<close> and its rows; numpy arrays are rectangular (\<open>rect\<close>), and a
  shape such as \<open>(0, 3)\<close> keeps its column count.
\<close>

type_synonym ndarray1 = "float64 list"

record ndarray2 =
  ncols :: nat
  rows :: "float64 list list"

definition nrows :: "ndarray2 \<Rightarrow> nat" where
  "nrows m = length (rows m)"

definition rect :: "ndarray2 \<Rightarrow> bool" where
  "rect m = list_all (\<lambda>r. length r = ncols m) (rows m)"

datatype exc = ValueError | IndexError

definition zeros1 :: "nat \<Rightarrow> ndarray1" where
  "zeros1 n = replicate n (Fin 0)"

definition zeros2 :: "nat \<Rightarrow> nat \<Rightarrow> ndarray2" where
  "zeros2 n k = \<lparr>ncols = k, rows = replicate n (replicate k (Fin 0))\<rparr>"

text \<open>\<open>v[i]\<close>, \<open>m[i,j]\<close> and \<open>m[i,j] = x\<close> for indices that are not negative.\<close>

definition getitem1 :: "ndarray1 \<Rightarrow> nat \<Rightarrow> exc + float64" where
  "getitem1 v i = (if i < length v then Inr (v ! i) else Inl IndexError)"

definition getitem2 :: "ndarray2 \<Rightarrow> nat \<Rightarrow> nat \<Rightarrow> exc + float64" where
  "getitem2 m i j =
     (if i < nrows m \<and> j < ncols m then Inr (rows m ! i ! j) else Inl IndexError)"

definition setitem2 :: "ndarray2 \<Rightarrow> nat \<Rightarrow> nat \<Rightarrow> float64 \<Rightarrow> exc + ndarray2" where
  "setitem2 m i j x =
     (if i < nrows m \<and> j < ncols m
      then Inr (m\<lparr>rows := (rows m)[i := (rows m ! i)[j := x]]\<rparr>)
      else Inl IndexError)"

text \<open>
  \<open>a - b\<close> on one-dimensional arrays, with numpy's broadcasting: the lengths agree, or
  one of them is 1 and its element is stretched over the other array.
\<close>

definition np_subtract :: "ndarray1 \<Rightarrow> ndarray1 \<Rightarrow> exc + ndarray1" where
  "np_subtract a b =
     (if length a = length b then Inr (map2 fsub a b)
      else if length a = 1 then Inr (map (\<lambda>y. fsub (a ! 0) y) b)
      else if length b = 1 then Inr (map (\<lambda>x. fsub x (b ! 0)) a)
      else Inl ValueError)"

text \<open>\<open>v[:] = t\<close>: the target keeps its length; \<open>t\<close> has that length or is stretched from length 1.\<close>

definition setslice :: "ndarray1 \<Rightarrow> ndarray1 \<Rightarrow> exc + ndarray1" where
  "setslice v t =
     (if length t = length v then Inr t
      else if length t = 1 then Inr (replicate (length v) (t ! 0))
      else Inl ValueError)"

text \<open>
  \<open>np.dot\<close> of two vectors, and of a matrix with a vector. numpy checks the shapes and
  hands the arithmetic to the BLAS library it is linked with (\<open>ddot\<close>, \<open>dgemv\<close>). The
  library decides in which order the products are added and whether a product and a sum
  are rounded once or twice; neither numpy nor the notebook fixes that. The two kernels
  are therefore a parameter of the model: \<open>ddot K a b\<close> is the number the library returns
  for two vectors, \<open>dgemv K m v i\<close> the \<open>i\<close>-th element it returns for a matrix and a
  vector.
\<close>

record blas =
  ddot :: "ndarray1 \<Rightarrow> ndarray1 \<Rightarrow> float64"
  dgemv :: "ndarray2 \<Rightarrow> ndarray1 \<Rightarrow> nat \<Rightarrow> float64"

definition np_dot :: "blas \<Rightarrow> ndarray1 \<Rightarrow> ndarray1 \<Rightarrow> exc + float64" where
  "np_dot K a b = (if length a = length b then Inr (ddot K a b) else Inl ValueError)"

definition np_dot_mv :: "blas \<Rightarrow> ndarray2 \<Rightarrow> ndarray1 \<Rightarrow> exc + ndarray1" where
  "np_dot_mv K m v =
     (if ncols m = length v then Inr (map (dgemv K m v) [0..<nrows m]) else Inl ValueError)"

text \<open>
  One such library, for the concrete runs further down: \<open>textbook\<close> starts from \<open>0.0\<close>
  and goes through the indices in order, rounding every product and every sum. The
  concrete runs use small whole numbers and powers of two, for which every product and
  every partial sum is a double: the order of the additions and the fusing of the
  roundings make no difference there.
\<close>

definition inner :: "ndarray1 \<Rightarrow> ndarray1 \<Rightarrow> float64" where
  "inner a b = foldl fadd (Fin 0) (map2 fmul a b)"

definition textbook :: blas where
  "textbook = \<lparr>ddot = inner, dgemv = (\<lambda>m v i. inner (rows m ! i) v)\<rparr>"

subsection \<open>The store and the notebook's variables\<close>

text \<open>
  \<open>vheap\<close> and \<open>mheap\<close> hold the one- and two-dimensional arrays; \<open>vnext\<close> and
  \<open>mnext\<close> are the next free addresses, so an address below them is allocated. The
  array variables hold addresses; \<open>Nintco\<close>, \<open>gq\<close> and \<open>dqHdq\<close> hold scalars.
  As in the notebook, \<open>H\<close> and \<open>H_new\<close> are two-dimensional float arrays and \<open>dq\<close>,
  \<open>dg\<close>, \<open>q_1\<close>, \<open>q_2\<close>, \<open>f_q1\<close>, \<open>f_q2\<close> and \<open>Hdq\<close> one-dimensional ones; their
  shapes are not constrained. Two variables may hold the same address.
\<close>

record state =
  vheap :: "nat \<Rightarrow> ndarray1"
  vnext :: nat
  mheap :: "nat \<Rightarrow> ndarray2"
  mnext :: nat
  Nintco :: nat
  H :: nat
  H_new :: nat
  dq :: nat
  dg :: nat
  q_1 :: nat
  q_2 :: nat
  f_q1 :: nat
  f_q2 :: nat
  Hdq :: nat
  gq :: float64
  dqHdq :: float64

type_synonym outcome = "(exc \<times> state) + state"

text \<open>An exception raised by an array operation leaves the store as the statement found it.\<close>

definition raised :: "state \<Rightarrow> exc \<Rightarrow> outcome" where
  "raised s e = Inl (e, s)"

text \<open>\<open>for i in range(n): body\<close>, over the list of indices of the range.\<close>

fun for_in :: "nat list \<Rightarrow> (nat \<Rightarrow> state \<Rightarrow> outcome) \<Rightarrow> state \<Rightarrow> outcome" where
  "for_in [] body s = Inr s"
| "for_in (i # is) body s =
     (case body i s of Inl e \<Rightarrow> Inl e | Inr s' \<Rightarrow> for_in is body s')"

definition py_range :: "nat \<Rightarrow> nat list" where
  "py_range n = [0..<n]"

subsection \<open>The cell, statement by statement\<close>

text \<open>\<open>H_new = np.zeros((Nintco,Nintco), float)\<close> and \<open>dg = np.zeros(Nintco, float)\<close>.\<close>

definition alloc_H_new :: "state \<Rightarrow> state" where
  "alloc_H_new s =
     s\<lparr>mheap := (mheap s)(mnext s := zeros2 (Nintco s) (Nintco s)),
       mnext := Suc (mnext s),
       H_new := mnext s\<rparr>"

definition alloc_dg :: "state \<Rightarrow> state" where
  "alloc_dg s =
     s\<lparr>vheap := (vheap s)(vnext s := zeros1 (Nintco s)),
       vnext := Suc (vnext s),
       dg := vnext s\<rparr>"

text \<open>\<open>dq[:] = q_2 - q_1\<close> and \<open>dg[:] = f_q1 - f_q2\<close>: both write into the existing array.\<close>

definition assign_dq :: "state \<Rightarrow> outcome" where
  "assign_dq s =
     (case np_subtract (vheap s (q_2 s)) (vheap s (q_1 s)) of
        Inl e \<Rightarrow> raised s e
      | Inr t \<Rightarrow>
          (case setslice (vheap s (dq s)) t of
             Inl e \<Rightarrow> raised s e
           | Inr v \<Rightarrow> Inr (s\<lparr>vheap := (vheap s)(dq s := v)\<rparr>)))"

definition assign_dg :: "state \<Rightarrow> outcome" where
  "assign_dg s =
     (case np_subtract (vheap s (f_q1 s)) (vheap s (f_q2 s)) of
        Inl e \<Rightarrow> raised s e
      | Inr t \<Rightarrow>
          (case setslice (vheap s (dg s)) t of
             Inl e \<Rightarrow> raised s e
           | Inr v \<Rightarrow> Inr (s\<lparr>vheap := (vheap s)(dg s := v)\<rparr>)))"

text \<open>\<open>gq = np.dot(dq, dg)\<close>.\<close>

definition compute_gq :: "blas \<Rightarrow> state \<Rightarrow> outcome" where
  "compute_gq K s =
     (case np_dot K (vheap s (dq s)) (vheap s (dg s)) of
        Inl e \<Rightarrow> raised s e
      | Inr x \<Rightarrow> Inr (s\<lparr>gq := x\<rparr>))"

text \<open>
  The body and the two loops of \<open>H_new[i,j] = H[i,j] + dg[i] * dg[j] / gq\<close>: the
  right-hand side is evaluated first, then the element is stored.
\<close>

definition add_term :: "nat \<Rightarrow> nat \<Rightarrow> state \<Rightarrow> outcome" where
  "add_term i j s =
     (case getitem2 (mheap s (H s)) i j of
        Inl e \<Rightarrow> raised s e
      | Inr h \<Rightarrow>
     (case getitem1 (vheap s (dg s)) i of
        Inl e \<Rightarrow> raised s e
      | Inr a \<Rightarrow>
     (case getitem1 (vheap s (dg s)) j of
        Inl e \<Rightarrow> raised s e
      | Inr b \<Rightarrow>
     (case setitem2 (mheap s (H_new s)) i j (fadd h (fdiv (fmul a b) (gq s))) of
        Inl e \<Rightarrow> raised s e
      | Inr m \<Rightarrow> Inr (s\<lparr>mheap := (mheap s)(H_new s := m)\<rparr>)))))"

definition add_loop :: "state \<Rightarrow> outcome" where
  "add_loop s =
     for_in (py_range (Nintco s))
       (\<lambda>i s'. for_in (py_range (Nintco s')) (\<lambda>j. add_term i j) s') s"

text \<open>\<open>Hdq = np.dot(H, dq)\<close> binds \<open>Hdq\<close> to a new array; \<open>dqHdq = np.dot(dq, Hdq)\<close>.\<close>

definition compute_Hdq :: "blas \<Rightarrow> state \<Rightarrow> outcome" where
  "compute_Hdq K s =
     (case np_dot_mv K (mheap s (H s)) (vheap s (dq s)) of
        Inl e \<Rightarrow> raised s e
      | Inr v \<Rightarrow>
          Inr (s\<lparr>vheap := (vheap s)(vnext s := v),
                 vnext := Suc (vnext s),
                 Hdq := vnext s\<rparr>))"

definition compute_dqHdq :: "blas \<Rightarrow> state \<Rightarrow> outcome" where
  "compute_dqHdq K s =
     (case np_dot K (vheap s (dq s)) (vheap s (Hdq s)) of
        Inl e \<Rightarrow> raised s e
      | Inr x \<Rightarrow> Inr (s\<lparr>dqHdq := x\<rparr>))"

text \<open>
  The body and the two loops of \<open>H_new[i,j] -= Hdq[i] * Hdq[j] / dqHdq\<close>: the element
  is read, the right-hand side is evaluated, and the difference is stored.
\<close>

definition sub_term :: "nat \<Rightarrow> nat \<Rightarrow> state \<Rightarrow> outcome" where
  "sub_term i j s =
     (case getitem2 (mheap s (H_new s)) i j of
        Inl e \<Rightarrow> raised s e
      | Inr h \<Rightarrow>
     (case getitem1 (vheap s (Hdq s)) i of
        Inl e \<Rightarrow> raised s e
      | Inr a \<Rightarrow>
     (case getitem1 (vheap s (Hdq s)) j of
        Inl e \<Rightarrow> raised s e
      | Inr b \<Rightarrow>
     (case setitem2 (mheap s (H_new s)) i j (fsub h (fdiv (fmul a b) (dqHdq s))) of
        Inl e \<Rightarrow> raised s e
      | Inr m \<Rightarrow> Inr (s\<lparr>mheap := (mheap s)(H_new s := m)\<rparr>)))))"

definition sub_loop :: "state \<Rightarrow> outcome" where
  "sub_loop s =
     for_in (py_range (Nintco s))
       (\<lambda>i s'. for_in (py_range (Nintco s')) (\<lambda>j. sub_term i j) s') s"

text \<open>Statements in sequence: the first exception ends the cell.\<close>

definition and_then :: "outcome \<Rightarrow> (state \<Rightarrow> outcome) \<Rightarrow> outcome" where
  "and_then r f = (case r of Inl e \<Rightarrow> Inl e | Inr s \<Rightarrow> f s)"

text \<open>
  The cell in three parts: the two allocations, the two displacement vectors, and the
  update proper, which reads \<open>H\<close>, \<open>dq\<close> and \<open>dg\<close> and fills \<open>H_new\<close>.
\<close>

definition allocate :: "state \<Rightarrow> state" where
  "allocate s = alloc_dg (alloc_H_new s)"

definition displacements :: "state \<Rightarrow> outcome" where
  "displacements s = and_then (assign_dq s) assign_dg"

definition bfgs_update :: "blas \<Rightarrow> state \<Rightarrow> outcome" where
  "bfgs_update K s =
     and_then (and_then (and_then (and_then (compute_gq K s) add_loop) (compute_Hdq K))
       (compute_dqHdq K)) sub_loop"

definition cell :: "blas \<Rightarrow> state \<Rightarrow> outcome" where
  "cell K s = and_then (displacements (allocate s)) (bfgs_update K)"

subsection \<open>Values the proofs speak about\<close>

text \<open>
  \<open>final\<close> is the store when the cell stops, by finishing or by an exception.
  \<open>kernel_entry s0 s\<close> says that \<open>s\<close> is the state at \<open>gq = np.dot(dq, dg)\<close> in a run
  of the cell from \<open>s0\<close>, where \<open>H\<close> and \<open>dq\<close> refer to allocated arrays: the update
  proper starts there, with \<open>H\<close>, \<open>dq\<close> and \<open>dg\<close> as its inputs. \<open>at_update s0\<close> is
  that state, computed.
\<close>

definition final :: "outcome \<Rightarrow> state" where
  "final r = (case r of Inl (e, s) \<Rightarrow> s | Inr s \<Rightarrow> s)"

definition kernel_entry :: "state \<Rightarrow> state \<Rightarrow> bool" where
  "kernel_entry s0 s =
     (H s0 < mnext s0 \<and> dq s0 < vnext s0 \<and> displacements (allocate s0) = Inr s)"

definition at_update :: "state \<Rightarrow> state" where
  "at_update s0 = final (displacements (allocate s0))"

text \<open>Writing the array \<open>H_new\<close> refers to, and one element of a matrix.\<close>

definition put_H_new :: "state \<Rightarrow> ndarray2 \<Rightarrow> state" where
  "put_H_new s m = s\<lparr>mheap := (mheap s)(H_new s := m)\<rparr>"

definition set_entry :: "ndarray2 \<Rightarrow> nat \<Rightarrow> nat \<Rightarrow> float64 \<Rightarrow> ndarray2" where
  "set_entry m i j x = m\<lparr>rows := (rows m)[i := (rows m ! i)[j := x]]\<rparr>"

definition square :: "ndarray2 \<Rightarrow> nat \<Rightarrow> bool" where
  "square m n = (nrows m = n \<and> ncols m = n \<and> rect m)"

text \<open>
  The matrix a pair of nested loops has produced when the outer loop is at row \<open>i\<close> and
  the inner one at column \<open>k\<close>: the elements before \<open>(i, k)\<close> in row-major order have
  been rewritten by \<open>u\<close>, the others are as they were.
\<close>

definition partial_map ::
  "ndarray2 \<Rightarrow> nat \<Rightarrow> (nat \<Rightarrow> nat \<Rightarrow> float64 \<Rightarrow> float64) \<Rightarrow> nat \<Rightarrow> nat \<Rightarrow> ndarray2" where
  "partial_map m n u i k =
     \<lparr>ncols = n,
      rows = map (\<lambda>i'. map (\<lambda>j. if i' < i \<or> (i' = i \<and> j < k) then u i' j (rows m ! i' ! j)
                                 else rows m ! i' ! j) [0..<n]) [0..<n]\<rparr>"

text \<open>
  The element \<open>(i, j)\<close> the two loop nests leave, in the operations and the order of the
  cell, from the values of \<open>H\<close>, \<open>dg\<close>, \<open>gq\<close>, \<open>Hdq\<close> and \<open>dqHdq\<close>; the matrix of these
  elements; and the state that a complete run of the update leaves.
\<close>

definition bfgs_entry ::
  "ndarray2 \<Rightarrow> ndarray1 \<Rightarrow> float64 \<Rightarrow> ndarray1 \<Rightarrow> float64 \<Rightarrow> nat \<Rightarrow> nat \<Rightarrow> float64" where
  "bfgs_entry h g x hq d i j =
     fsub (fadd (rows h ! i ! j) (fdiv (fmul (g ! i) (g ! j)) x)) (fdiv (fmul (hq ! i) (hq ! j)) d)"

definition bfgs_matrix ::
  "nat \<Rightarrow> ndarray2 \<Rightarrow> ndarray1 \<Rightarrow> float64 \<Rightarrow> ndarray1 \<Rightarrow> float64 \<Rightarrow> ndarray2" where
  "bfgs_matrix n h g x hq d =
     \<lparr>ncols = n, rows = map (\<lambda>i. map (\<lambda>j. bfgs_entry h g x hq d i j) [0..<n]) [0..<n]\<rparr>"

definition after_update :: "blas \<Rightarrow> state \<Rightarrow> state" where
  "after_update K s =
     (let h = mheap s (H s); q = vheap s (dq s); g = vheap s (dg s);
          x = ddot K q g; hq = map (dgemv K h q) [0..<nrows h]; d = ddot K q hq
      in s\<lparr>gq := x,
           vheap := (vheap s)(vnext s := hq),
           vnext := Suc (vnext s),
           Hdq := vnext s,
           dqHdq := d,
           mheap := (mheap s)(H_new s := bfgs_matrix (Nintco s) h g x hq d)\<rparr>)"

text \<open>
  What the update may change: \<open>kernel_frame s t\<close> holds when \<open>t\<close> differs from \<open>s\<close>
  at most in the array \<open>H_new\<close> refers to, in arrays allocated after \<open>s\<close>, and in
  the variables \<open>gq\<close>, \<open>Hdq\<close> and \<open>dqHdq\<close>.
\<close>

definition kernel_frame :: "state \<Rightarrow> state \<Rightarrow> bool" where
  "kernel_frame s t =
     (H t = H s \<and> H_new t = H_new s \<and> dq t = dq s \<and> dg t = dg s \<and> Nintco t = Nintco s \<and>
      mnext t = mnext s \<and> vnext s \<le> vnext t \<and>
      (\<forall>a. a \<noteq> H_new s \<longrightarrow> mheap t a = mheap s a) \<and>
      (\<forall>a. a < vnext s \<longrightarrow> vheap t a = vheap s a))"

text \<open>
  Two runs compared: \<open>related E R r r'\<close> holds when both outcomes are exceptions of the
  same kind, with stores related by \<open>E\<close>, or both are normal ends, with stores related
  by \<open>R\<close>. \<open>same_H_new\<close> compares the arrays \<open>H_new\<close> refers to. \<open>agree k\<close> says
  that two states hold equal values in everything the update reads from its \<open>k\<close>-th
  stage on, each in a store where \<open>H_new\<close> is not \<open>H\<close> and \<open>dq\<close>, \<open>dg\<close> are allocated.
\<close>

definition related ::
  "(state \<Rightarrow> state \<Rightarrow> bool) \<Rightarrow> (state \<Rightarrow> state \<Rightarrow> bool) \<Rightarrow> outcome \<Rightarrow> outcome \<Rightarrow> bool" where
  "related E R r r' =
     (case r of
        Inl (e, s) \<Rightarrow> (case r' of Inl (e', t) \<Rightarrow> e = e' \<and> E s t | Inr t \<Rightarrow> False)
      | Inr s \<Rightarrow> (case r' of Inl p \<Rightarrow> False | Inr t \<Rightarrow> R s t))"

definition same_H_new :: "state \<Rightarrow> state \<Rightarrow> bool" where
  "same_H_new s t = (mheap s (H_new s) = mheap t (H_new t))"

definition agree :: "nat \<Rightarrow> state \<Rightarrow> state \<Rightarrow> bool" where
  "agree k s t =
     (Nintco s = Nintco t \<and> mheap s (H s) = mheap t (H t) \<and>
      mheap s (H_new s) = mheap t (H_new t) \<and>
      vheap s (dq s) = vheap t (dq t) \<and> vheap s (dg s) = vheap t (dg t) \<and>
      H_new s \<noteq> H s \<and> H_new t \<noteq> H t \<and>
      dq s < vnext s \<and> dq t < vnext t \<and> dg s < vnext s \<and> dg t < vnext t \<and>
      (1 \<le> k \<longrightarrow> gq s = gq t) \<and>
      (2 \<le> k \<longrightarrow> vheap s (Hdq s) = vheap t (Hdq t)) \<and>
      (3 \<le> k \<longrightarrow> dqHdq s = dqHdq t))"

text \<open>A matrix of finite numbers, given by its rows.\<close>

definition real_matrix :: "nat \<Rightarrow> real list list \<Rightarrow> ndarray2" where
  "real_matrix n h = \<lparr>ncols = n, rows = map (map Fin) h\<rparr>"


text \<open>
  A matrix is symmetric when \<open>h[i,j] == h[j,i]\<close> holds for all \<open>i\<close>, \<open>j\<close>, with the
  comparison of doubles: NaN is equal to nothing, and the two zeros are equal. Two
  doubles are the same number when they compare equal or are both NaN.
\<close>

definition symmetric :: "ndarray2 \<Rightarrow> nat \<Rightarrow> bool" where
  "symmetric h n = (\<forall>i<n. \<forall>j<n. feq (rows h ! i ! j) (rows h ! j ! i))"


subsection \<open>Gradients and forces\<close>

text \<open>
  The notebook's comment on \<open>qForces\<close>: "The forces are simply -1 * the gradient. The
  qForces function includes this sign change." So the gradient at a point is the
  negated force vector. \<open>gradient_displacement\<close> follows the specification's words for
  \<open>dg\<close>, "current minus previous gradient", with \<open>g1\<close> the previous and \<open>g2\<close> the
  current gradient; it is compared below with what the cell computes from the forces.
\<close>

definition gradient_of :: "ndarray1 \<Rightarrow> ndarray1" where
  "gradient_of f = map fneg f"

definition gradient_displacement :: "ndarray1 \<Rightarrow> ndarray1 \<Rightarrow> exc + ndarray1" where
  "gradient_displacement g1 g2 = np_subtract g2 g1"

subsection \<open>Concrete runs\<close>

text \<open>
  The state the earlier cells leave: \<open>H\<close>, the Newton-Raphson step in \<open>dq\<close>, and the
  values and forces at the two points. The names the cell binds itself (\<open>H_new\<close>,
  \<open>dg\<close>, \<open>Hdq\<close>, \<open>gq\<close>, \<open>dqHdq\<close>) are not bound yet; their fields hold
  placeholders that the cell overwrites before it reads them.
\<close>

definition notebook ::
  "nat \<Rightarrow> ndarray2 \<Rightarrow> ndarray1 \<Rightarrow> ndarray1 \<Rightarrow> ndarray1 \<Rightarrow> ndarray1 \<Rightarrow> ndarray1 \<Rightarrow> state" where
  "notebook n h step q1 q2 f1 f2 =
     \<lparr>vheap = (\<lambda>a. [])(0 := step, 1 := q1, 2 := q2, 3 := f1, 4 := f2), vnext = 5,
      mheap = (\<lambda>a. zeros2 0 0)(0 := h), mnext = 1,
      Nintco = n, H = 0, H_new = 0, dq = 0, dg = 0, q_1 = 1, q_2 = 2, f_q1 = 3, f_q2 = 4,
      Hdq = 0, gq = Fin 0, dqHdq = Fin 0\<rparr>"

text \<open>Two coordinates, \<open>H = diag(2, 1)\<close>, \<open>dq = dg = (1, 1)\<close>.\<close>

definition demo2 :: state where
  "demo2 = notebook 2 (real_matrix 2 [[2, 0], [0, 1]]) (map Fin [1, 1])
             (map Fin [0, 0]) (map Fin [1, 1]) (map Fin [1, 1]) (map Fin [0, 0])"


text \<open>
  The inputs of \<open>demo2\<close> in another store: other addresses, other values and forces with
  the same differences, another Newton-Raphson step, \<open>H_new\<close> left pointing at \<open>H\<close>, and
  other leftovers in \<open>gq\<close> and \<open>dqHdq\<close>.
\<close>

definition relocated :: state where
  "relocated =
     \<lparr>vheap = (\<lambda>a. [NaN])(3 := map Fin [9, 9], 7 := map Fin [5, 5], 2 := map Fin [6, 6],
                 0 := map Fin [0, 0], 1 := map Fin [- 1, - 1]), vnext = 9,
      mheap = (\<lambda>a. zeros2 1 1)(4 := real_matrix 2 [[2, 0], [0, 1]]), mnext = 6,
      Nintco = 2, H = 4, H_new = 4, dq = 3, dg = 3, q_1 = 7, q_2 = 2, f_q1 = 0, f_q2 = 1,
      Hdq = 3, gq = NaN, dqHdq = PInf\<rparr>"

text \<open>\<open>H\<close> the identity, \<open>dq = (1, 0)\<close> and \<open>dg = (0, 1)\<close> orthogonal: \<open>gq = 0\<close>.\<close>

definition orthogonal :: state where
  "orthogonal = notebook 2 (real_matrix 2 [[1, 0], [0, 1]]) (map Fin [1, 0])
             (map Fin [0, 0]) (map Fin [1, 0]) (map Fin [0, 1]) (map Fin [0, 0])"

text \<open>A converged step: the two points and their forces coincide, \<open>dq = dg = (0)\<close>.\<close>

definition converged :: state where
  "converged = notebook 1 (real_matrix 1 [[1]]) (map Fin [0])
             (map Fin [1]) (map Fin [1]) (map Fin [0]) (map Fin [0])"

text \<open>One coordinate and a \<open>1 \<times> 2\<close> array in \<open>H\<close>; \<open>dq = dg = (1)\<close>.\<close>

definition wide :: state where
  "wide = notebook 1 \<lparr>ncols = 2, rows = [[Fin 1, Fin 5]]\<rparr> (map Fin [1])
             (map Fin [0]) (map Fin [1]) (map Fin [1]) (map Fin [0])"

text \<open>One coordinate, \<open>H\<close> of shape \<open>1 \<times> 1\<close>, and a \<open>dq\<close> of length 2.\<close>

definition long_step :: state where
  "long_step = notebook 1 (real_matrix 1 [[1]]) (map Fin [1, 1])
             (map Fin [0, 0]) (map Fin [1, 1]) (map Fin [1]) (map Fin [0])"

text \<open>No internal coordinates: every array is empty.\<close>

definition empty_notebook :: state where
  "empty_notebook = notebook 0 (zeros2 0 0) [] [] [] [] []"



section \<open>Properties\<close>

subsection \<open>Rounding\<close>

text \<open>
  A number \<open>m \<cdot> 2^p\<close> with \<open>|m| < 2^53\<close>, \<open>p \<ge> -1074\<close> and magnitude below \<open>2^1024\<close>
  is a double: rounding leaves it as it is. Whole numbers below \<open>2^53\<close> and the powers of
  two up to \<open>2^1023\<close> are of this form. \<open>2^1024\<close> overflows, and \<open>2^(-1080)\<close> underflows
  to zero.
\<close>

lemma round_even_of_int [simp]: "round_even (of_int m) = m"
  by (simp add: round_even_def)

lemma round64_scaled:
  fixes m p :: int
  assumes m: "m \<noteq> 0" "\<bar>m\<bar> < 2 ^ 53" and p: "- 1074 \<le> p"
    and x: "x = of_int m * 2 powr of_int p" and fin: "\<bar>x\<bar> < 2 ^ 1024"
  shows "round64 x = Fin x"
proof -
  define e where "e = max \<lfloor>log 2 \<bar>x\<bar>\<rfloor> (- 1022)"
  have xpos: "0 < \<bar>x\<bar>" using m x by simp
  have ax: "\<bar>x\<bar> = of_int \<bar>m\<bar> * 2 powr of_int p" unfolding x by (simp add: abs_mult)
  have "\<bar>x\<bar> < 2 ^ 53 * 2 powr of_int p"
  proof -
    have "(of_int \<bar>m\<bar> :: real) < 2 ^ 53" using m(2) by (metis of_int_less_numeral_power_cancel_iff)
    then show ?thesis unfolding ax by simp
  qed
  also have "\<dots> = 2 powr (53 + of_int p)" by (simp add: powr_add)
  finally have "log 2 \<bar>x\<bar> < 53 + of_int p"
    using xpos by (simp add: log_less_iff)
  then have fl: "\<lfloor>log 2 \<bar>x\<bar>\<rfloor> \<le> 52 + p" by linarith
  have ep: "e - 52 \<le> p" using fl p by (simp add: e_def)
  define t where "t = nat (p - (e - 52))"
  have t: "of_int p = of_int (e - 52) + real t" using ep by (simp add: t_def)
  define u :: real where "u = 2 powr of_int (e - 52)"
  have upos: "0 < u" by (simp add: u_def)
  have pu: "2 powr of_int p = u * 2 ^ t"
    unfolding t u_def by (simp add: powr_add powr_realpow)
  then have xu: "x / u = of_int (m * 2 ^ t)" using upos unfolding x by simp
  have y: "of_int (round_even (x / u)) * u = x"
    unfolding xu round_even_of_int using pu x by simp
  show ?thesis
    using fin xpos unfolding round64_def Let_def e_def[symmetric] u_def[symmetric] y by simp
qed

lemma round64_Ints:
  assumes "x \<in> \<int>" "x \<noteq> 0" "\<bar>x\<bar> < 2 ^ 53"
  shows "round64 x = Fin x"
proof -
  from assms(1) obtain m :: int where x: "x = of_int m" by (auto elim: Ints_cases)
  have "\<bar>m\<bar> < 2 ^ 53" using assms(3) unfolding x by (metis of_int_abs of_int_less_numeral_power_cancel_iff)
  moreover have "\<bar>x\<bar> < 2 ^ 1024"
  proof -
    have "(2::real) ^ 53 \<le> 2 ^ 1024" by (rule power_increasing) simp_all
    with assms(3) show ?thesis by linarith
  qed
  ultimately show ?thesis
    using round64_scaled[of m 0 x] assms(2) x by simp
qed



lemma round64_underflow: "round64 (2 powr (- 1080)) = Fin 0"
proof -
  have l: "\<lfloor>log 2 \<bar>2 powr (- 1080) :: real\<bar>\<rfloor> = - 1080" by simp
  have e: "max (- 1080 :: int) (- 1022) - 52 = - 1074" by simp
  have d: "(2::real) powr (- 1080) / 2 powr of_int (- 1074) = 1 / 64"
  proof -
    have "(2::real) powr (- 1080) / 2 powr of_int (- 1074) = 2 powr (- 1080 - (- 1074))"
      by (simp only: powr_diff of_int_minus of_int_numeral)
    also have "\<dots> = 2 powr (- 6)" by simp
    also have "\<dots> = 1 / 2 powr 6" by (simp only: powr_minus_divide)
    also have "(2::real) powr 6 = 2 ^ 6" using powr_realpow[of 2 6] by simp
    finally show ?thesis by simp
  qed
  have r: "round_even (1 / 64) = 0" by (simp add: round_even_def)
  show ?thesis
    unfolding round64_def Let_def l e d r by (simp add: signed_zero_def)
qed

lemma round64_nearest:
  fixes e m :: int
  assumes lo: "2 powr of_int e \<le> \<bar>x\<bar>" and hi: "\<bar>x\<bar> < 2 powr of_int (e + 1)"
    and e: "- 1022 \<le> e"
    and m: "round_even (x / 2 powr of_int (e - 52)) = m" "m \<noteq> 0"
    and fin: "\<bar>of_int m * 2 powr of_int (e - 52) :: real\<bar> < 2 ^ 1024"
  shows "round64 x = Fin (of_int m * 2 powr of_int (e - 52))"
proof -
  have pos: "0 < \<bar>x\<bar>" using lo by (smt (verit) powr_gt_zero)
  have "of_int e \<le> log 2 \<bar>x\<bar>" using lo pos by (simp add: le_log_iff)
  moreover have "log 2 \<bar>x\<bar> < of_int e + 1" using hi pos by (simp add: log_less_iff)
  ultimately have "\<lfloor>log 2 \<bar>x\<bar>\<rfloor> = e" by linarith
  then have l: "max \<lfloor>log 2 \<bar>x\<bar>\<rfloor> (- 1022) = e" using e by simp
  show ?thesis
    unfolding round64_def Let_def l m using fin m(2) by simp
qed

lemma round64_half: "round64 (1 / 2) = Fin (1 / 2)"
  by (rule round64_scaled[of 1 "- 1"]) (simp_all add: powr_minus_divide)

lemma round64_two_thirds: "round64 (2 / 3) = Fin (6004799503160661 / 9007199254740992)"
proof -
  have p: "(2::real) powr of_int (- 1 - 52) = 1 / 9007199254740992"
  proof -
    have "(2::real) powr of_int (- 1 - 52) = 2 powr (- 53)" by simp
    also have "\<dots> = 1 / 2 powr 53" by (simp only: powr_minus_divide)
    also have "(2::real) powr 53 = 2 ^ 53" using powr_realpow[of 2 53] by simp
    finally show ?thesis by simp
  qed
  have r: "round_even (2 / 3 / (1 / 9007199254740992)) = 6004799503160661"
    by (simp add: round_even_def)
  have "round64 (2 / 3) = Fin (of_int 6004799503160661 * 2 powr of_int (- 1 - 52))"
  proof (rule round64_nearest)
    show "2 powr of_int (- 1) \<le> \<bar>2 / 3 :: real\<bar>" by (simp add: powr_minus_divide)
    show "\<bar>2 / 3 :: real\<bar> < 2 powr of_int (- 1 + 1)" by simp
    show "round_even (2 / 3 / 2 powr of_int (- 1 - 52)) = 6004799503160661" unfolding p by (rule r)
    have "\<bar>of_int 6004799503160661 * (1 / 9007199254740992) :: real\<bar> < 1" by simp
    also have "(1::real) < 2 ^ 1024" by (rule one_less_power) simp_all
    finally show "\<bar>of_int 6004799503160661 * 2 powr of_int (- 1 - 52) :: real\<bar> < 2 ^ 1024"
      unfolding p .
  qed simp_all
  then show ?thesis unfolding p by simp
qed

lemma round64_sixth:
  "round64 (- 1501199875790165 / 9007199254740992) = Fin (- 1501199875790165 / 9007199254740992)"
proof (rule round64_scaled[of "- 1501199875790165" "- 53"])
  have "(2::real) powr (- 53) = 1 / 2 powr 53" by (simp only: powr_minus_divide)
  also have "(2::real) powr 53 = 2 ^ 53" using powr_realpow[of 2 53] by simp
  finally show "(- 1501199875790165 / 9007199254740992 :: real)
        = of_int (- 1501199875790165) * 2 powr of_int (- 53)" by simp
  have "\<bar>- 1501199875790165 / 9007199254740992 :: real\<bar> < 1" by simp
  also have "(1::real) < 2 ^ 1024" by (rule one_less_power) simp_all
  finally show "\<bar>- 1501199875790165 / 9007199254740992 :: real\<bar> < 2 ^ 1024" .
qed simp_all

subsection \<open>The operations on doubles\<close>

text \<open>
  Whole numbers below \<open>2^53\<close> are doubles, and so are their sums, differences, products
  and exact quotients. The product of two doubles that are not zero can be zero.
\<close>

lemma fadd_exact:
  assumes "x \<in> \<int>" "y \<in> \<int>" "\<bar>x + y\<bar> < 2 ^ 53"
  shows "fadd (Fin x) (Fin y) = Fin (x + y)"
  using assms round64_Ints[of "x + y"] by (simp add: fadd_def)

lemma fsub_exact:
  assumes "x \<in> \<int>" "y \<in> \<int>" "\<bar>x - y\<bar> < 2 ^ 53"
  shows "fsub (Fin x) (Fin y) = Fin (x - y)"
proof (cases "y = 0")
  case True
  with assms round64_Ints[of x] show ?thesis by (simp add: fsub_def fadd_def)
next
  case False
  with assms round64_Ints[of "x - y"] show ?thesis by (simp add: fsub_def fadd_def)
qed

lemma fmul_exact:
  assumes "x \<in> \<int>" "y \<in> \<int>" "0 \<le> x" "0 \<le> y" "x * y < 2 ^ 53"
  shows "fmul (Fin x) (Fin y) = Fin (x * y)"
proof (cases "x = 0 \<or> y = 0")
  case True
  with assms(3,4) show ?thesis by (auto simp: fmul_def signed_zero_def)
next
  case False
  then have "x * y \<noteq> 0" "\<bar>x * y\<bar> < 2 ^ 53" using assms by (simp_all add: abs_mult)
  with False assms(1,2) show ?thesis using round64_Ints[of "x * y"] by (simp add: fmul_def)
qed

lemma fdiv_exact:
  assumes "x / y \<in> \<int>" "0 \<le> x" "0 < y" "x / y < 2 ^ 53"
  shows "fdiv (Fin x) (Fin y) = Fin (x / y)"
proof (cases "x = 0")
  case True
  with assms(3) show ?thesis by (simp add: fdiv_def nonzero_division_def signed_zero_def)
next
  case False
  then have "x / y \<noteq> 0" "\<bar>x / y\<bar> < 2 ^ 53" using assms by simp_all
  with False assms show ?thesis using round64_Ints[of "x / y"]
    by (simp add: fdiv_def nonzero_division_def)
qed



lemma product_underflows:
  "fmul (Fin (2 powr (- 540))) (Fin (2 powr (- 540))) = Fin 0 \<and>
   (2 powr (- 540) :: real) * 2 powr (- 540) \<noteq> 0"
proof -
  have "(2 powr (- 540) :: real) * 2 powr (- 540) = 2 powr (- 1080)"
    by (simp add: powr_add[symmetric])
  then show ?thesis by (simp add: fmul_def round64_underflow)
qed

lemma fneg_fneg [simp]: "fneg (fneg a) = a"
  by (cases a) simp_all

lemma fadd_commute: "fadd a b = fadd b a"
  by (cases a; cases b) (auto simp: fadd_def add.commute)


lemma fsub_neg_swap: "fsub a b = fsub (fneg b) (fneg a)"
  by (simp add: fsub_def fadd_commute)

lemma fadd_NaN: "fadd NaN b = NaN" "fadd a NaN = NaN"
  by (simp_all add: fadd_def)

lemma fsub_NaN: "fsub NaN b = NaN" "fsub a NaN = NaN"
  by (simp_all add: fsub_def fadd_def)

lemma fadd_PInf: "fadd (Fin x) PInf = PInf"
  by (simp add: fadd_def)

lemma fsub_PInf: "fsub PInf (Fin x) = PInf" "fsub PInf PInf = NaN"
  by (simp_all add: fsub_def fadd_def)

lemma fdiv_by_zero: "fdiv (Fin 0) (Fin 0) = NaN" "0 < x \<Longrightarrow> fdiv (Fin x) (Fin 0) = PInf"
  by (simp_all add: fdiv_def zero_division_def signed_inf_def)


lemma fdiv_zero_not_finite: "is_zero b \<Longrightarrow> \<not> is_finite (fdiv a b)"
  by (simp add: fdiv_def zero_division_def signed_inf_def)

lemma fadd_not_finite: "\<not> is_finite a \<or> \<not> is_finite b \<Longrightarrow> \<not> is_finite (fadd a b)"
  by (cases a; cases b) (auto simp: fadd_def)

lemma fneg_finite [simp]: "is_finite (fneg a) = is_finite a"
  by (cases a) simp_all

lemma fsub_not_finite: "\<not> is_finite a \<or> \<not> is_finite b \<Longrightarrow> \<not> is_finite (fsub a b)"
  by (simp add: fsub_def fadd_not_finite)


lemma feq_refl: "feq a a = (a \<noteq> NaN)"
  by (simp add: feq_def)








lemma demo2_entry:
  "fsub (fadd (Fin 0) (fdiv (fmul (Fin 1) (Fin 1)) (Fin 2))) (fdiv (fmul (Fin 2) (Fin 1)) (Fin 3))
     = Fin (- 1501199875790165 / 9007199254740992)"
proof -
  have 1: "fdiv (Fin 1) (Fin 2) = Fin (1 / 2)"
    by (simp add: fdiv_def nonzero_division_def round64_half)
  have 2: "fadd (Fin 0) (Fin (1 / 2)) = Fin (1 / 2)" by (simp add: fadd_def round64_half)
  have 3: "fdiv (Fin 2) (Fin 3) = Fin (6004799503160661 / 9007199254740992)"
    by (simp add: fdiv_def nonzero_division_def round64_two_thirds)
  have 4: "fsub (Fin (1 / 2)) (Fin (6004799503160661 / 9007199254740992))
     = Fin (- 1501199875790165 / 9007199254740992)"
    using round64_sixth by (simp add: fsub_def fadd_def)
  show ?thesis by (simp add: fmul_exact 1 2 3 4)
qed

subsection \<open>Loops that end normally\<close>

text \<open>
  A loop over \<open>range(n)\<close> whose body never raises ends normally, and an invariant of
  the body holds at the end. For the two loop nests of the cell this gives the matrix
  they leave: every element rewritten once, in row-major order.
\<close>

lemma for_upt_inv:
  assumes "P k s" and "k \<le> n"
    and step: "\<And>i t. k \<le> i \<Longrightarrow> i < n \<Longrightarrow> P i t \<Longrightarrow> \<exists>t'. body i t = Inr t' \<and> P (Suc i) t'"
  shows "\<exists>t. for_in [k..<n] body s = Inr t \<and> P n t"
  using assms
proof (induction "n - k" arbitrary: k s)
  case 0
  then show ?case by simp
next
  case (Suc d)
  then have kn: "k < n" by simp
  from Suc.prems(3)[OF le_refl kn Suc.prems(1)]
  obtain t' where b: "body k s = Inr t'" and p: "P (Suc k) t'" by blast
  have "\<exists>t. for_in [Suc k..<n] body t' = Inr t \<and> P n t"
  proof (rule Suc.hyps(1))
    show "d = n - Suc k" using Suc.hyps(2) by simp
    show "P (Suc k) t'" by (rule p)
    show "Suc k \<le> n" using kn by simp
    fix i t assume "Suc k \<le> i" "i < n" "P i t"
    then show "\<exists>t'. body i t = Inr t' \<and> P (Suc i) t'"
      using Suc.prems(3)[of i t] by simp
  qed
  then show ?case using kn b by (simp add: upt_conv_Cons)
qed

lemma for_range_inv:
  assumes "P 0 s"
    and "\<And>i t. i < n \<Longrightarrow> P i t \<Longrightarrow> \<exists>t'. body i t = Inr t' \<and> P (Suc i) t'"
  shows "\<exists>t. for_in (py_range n) body s = Inr t \<and> P n t"
  unfolding py_range_def using assms by (intro for_upt_inv[where P=P]) auto

lemma put_put [simp]: "put_H_new (put_H_new s m) m' = put_H_new s m'"
  by (simp add: put_H_new_def)

lemma put_sel [simp]:
  "Nintco (put_H_new s m) = Nintco s" "H_new (put_H_new s m) = H_new s"
  "H (put_H_new s m) = H s" "vheap (put_H_new s m) = vheap s"
  "dg (put_H_new s m) = dg s" "dq (put_H_new s m) = dq s" "gq (put_H_new s m) = gq s"
  "Hdq (put_H_new s m) = Hdq s" "dqHdq (put_H_new s m) = dqHdq s"
  "vnext (put_H_new s m) = vnext s" "mnext (put_H_new s m) = mnext s"
  "mheap (put_H_new s m) (H_new s) = m"
  "a \<noteq> H_new s \<Longrightarrow> mheap (put_H_new s m) a = mheap s a"
  by (simp_all add: put_H_new_def)

lemma put_same: "put_H_new s (mheap s (H_new s)) = s"
  by (simp add: put_H_new_def)

lemma partial_map_start: "square m n \<Longrightarrow> partial_map m n u 0 0 = m"
  apply (cases m)
  apply (auto simp: partial_map_def square_def rect_def nrows_def list_all_length intro!: nth_equalityI)
  done

lemma partial_map_square: "square (partial_map m n u i k) n"
  by (auto simp: partial_map_def square_def rect_def nrows_def list_all_length)

lemma partial_map_row_end: "partial_map m n u i n = partial_map m n u (Suc i) 0"
  by (auto simp: partial_map_def intro!: nth_equalityI)

lemma partial_map_step:
  assumes "i < n" "k < n"
  shows "set_entry (partial_map m n u i k) i k (u i k (rows (partial_map m n u i k) ! i ! k))
         = partial_map m n u i (Suc k)"
  using assms
  by (auto simp: partial_map_def set_entry_def nth_list_update intro!: nth_equalityI)

lemma elementwise_loops:
  assumes body: "\<And>i j m. i < n \<Longrightarrow> j < n \<Longrightarrow> square m n \<Longrightarrow>
            body i j (put_H_new s m) = Inr (put_H_new s (set_entry m i j (u i j (rows m ! i ! j))))"
    and sq: "square (mheap s (H_new s)) n" and n: "Nintco s = n"
  shows "for_in (py_range (Nintco s)) (\<lambda>i s'. for_in (py_range (Nintco s')) (\<lambda>j. body i j) s') s
         = Inr (put_H_new s (partial_map (mheap s (H_new s)) n u n 0))"
proof -
  let ?m0 = "mheap s (H_new s)"
  let ?M = "partial_map ?m0 n u"
  have inner: "\<exists>t'. for_in (py_range (Nintco t)) (\<lambda>j. body i j) t = Inr t' \<and> t' = put_H_new s (?M (Suc i) 0)"
    if "i < n" and t: "t = put_H_new s (?M i 0)" for i t
  proof -
    have "\<exists>t'. for_in (py_range n) (\<lambda>j. body i j) t = Inr t' \<and> t' = put_H_new s (?M i n)"
    proof (rule for_range_inv[where P="\<lambda>k t. t = put_H_new s (?M i k)"])
      show "t = put_H_new s (?M i 0)" by (rule t)
      fix k t1 assume k: "k < n" and t1: "t1 = put_H_new s (?M i k)"
      show "\<exists>t'. body i k t1 = Inr t' \<and> t' = put_H_new s (?M i (Suc k))"
        unfolding t1 using body[OF \<open>i < n\<close> k partial_map_square] partial_map_step[OF \<open>i < n\<close> k]
        by simp
    qed
    then show ?thesis by (simp add: t n partial_map_row_end)
  qed
  have "\<exists>t. for_in (py_range n) (\<lambda>i s'. for_in (py_range (Nintco s')) (\<lambda>j. body i j) s') s = Inr t
           \<and> t = put_H_new s (?M n 0)"
  proof (rule for_range_inv[where P="\<lambda>i t. t = put_H_new s (?M i 0)"])
    show "s = put_H_new s (?M 0 0)" by (simp add: partial_map_start[OF sq] put_same)
    fix i t assume "i < n" "t = put_H_new s (?M i 0)"
    then show "\<exists>t'. for_in (py_range (Nintco t)) (\<lambda>j. body i j) t = Inr t' \<and> t' = put_H_new s (?M (Suc i) 0)"
      by (rule inner)
  qed
  then show ?thesis by (simp add: n)
qed

lemma setitem2_square:
  "square m n \<Longrightarrow> i < n \<Longrightarrow> j < n \<Longrightarrow> setitem2 m i j x = Inr (set_entry m i j x)"
  by (simp add: setitem2_def set_entry_def square_def)

lemma getitem2_square:
  "square m n \<Longrightarrow> i < n \<Longrightarrow> j < n \<Longrightarrow> getitem2 m i j = Inr (rows m ! i ! j)"
  by (simp add: getitem2_def square_def)

lemma add_term_put:
  assumes "H_new s \<noteq> H s" "square (mheap s (H s)) n" "length (vheap s (dg s)) = n"
    "i < n" "j < n" "square m n"
  shows "add_term i j (put_H_new s m) =
         Inr (put_H_new s (set_entry m i j
           (fadd (rows (mheap s (H s)) ! i ! j)
                 (fdiv (fmul (vheap s (dg s) ! i) (vheap s (dg s) ! j)) (gq s)))))"
  using assms
  by (simp add: add_term_def getitem2_square getitem1_def setitem2_square put_H_new_def)

lemma sub_term_put:
  assumes "length (vheap s (Hdq s)) = n" "i < n" "j < n" "square m n"
  shows "sub_term i j (put_H_new s m) =
         Inr (put_H_new s (set_entry m i j
           (fsub (rows m ! i ! j)
                 (fdiv (fmul (vheap s (Hdq s) ! i) (vheap s (Hdq s) ! j)) (dqHdq s)))))"
  using assms
  by (simp add: sub_term_def getitem2_square getitem1_def setitem2_square put_H_new_def)

lemma add_loop_ok:
  assumes "H_new s \<noteq> H s" "square (mheap s (H s)) n" "length (vheap s (dg s)) = n"
    "square (mheap s (H_new s)) n" "Nintco s = n"
    and vals: "mheap s (H_new s) = m" "mheap s (H s) = h" "vheap s (dg s) = g" "gq s = x"
  shows "add_loop s = Inr (put_H_new s (partial_map m n
           (\<lambda>i j old. fadd (rows h ! i ! j) (fdiv (fmul (g ! i) (g ! j)) x)) n 0))"
  unfolding add_loop_def vals[symmetric]
  by (rule elementwise_loops) (simp_all add: add_term_put[where n=n] assms(1-5))

lemma sub_loop_ok:
  assumes "length (vheap s (Hdq s)) = n" "square (mheap s (H_new s)) n" "Nintco s = n"
    and vals: "mheap s (H_new s) = m" "vheap s (Hdq s) = hq" "dqHdq s = d"
  shows "sub_loop s = Inr (put_H_new s (partial_map m n
           (\<lambda>i j old. fsub old (fdiv (fmul (hq ! i) (hq ! j)) d)) n 0))"
  unfolding sub_loop_def vals[symmetric]
  by (rule elementwise_loops) (simp_all add: sub_term_put[where n=n] assms(1-3))

lemma bfgs_matrix_square: "square (bfgs_matrix n h g x hq d) n"
  by (simp add: bfgs_matrix_def square_def rect_def nrows_def list_all_length)

lemma partial_map_bfgs:
  "partial_map (partial_map m n (\<lambda>i j old. fadd (rows h ! i ! j) (fdiv (fmul (g ! i) (g ! j)) x)) n 0) n
     (\<lambda>i j old. fsub old (fdiv (fmul (hq ! i) (hq ! j)) d)) n 0
   = bfgs_matrix n h g x hq d"
  by (simp add: partial_map_def bfgs_matrix_def bfgs_entry_def)

lemma bfgs_update_ok:
  assumes sep: "H_new s \<noteq> H s" "dq s < vnext s"
    and shapes: "square (mheap s (H s)) n" "square (mheap s (H_new s)) n"
      "length (vheap s (dq s)) = n" "length (vheap s (dg s)) = n" "Nintco s = n"
  shows "bfgs_update K s = Inr (after_update K s)"
proof -
  let ?h = "mheap s (H s)" and ?q = "vheap s (dq s)" and ?g = "vheap s (dg s)"
  let ?x = "ddot K ?q ?g"
  let ?hq = "map (dgemv K ?h ?q) [0..<nrows ?h]"
  let ?d = "ddot K ?q ?hq"
  let ?s1 = "s\<lparr>gq := ?x\<rparr>"
  have 1: "compute_gq K s = Inr ?s1"
    using shapes by (simp add: compute_gq_def np_dot_def)
  let ?m2 = "partial_map (mheap s (H_new s)) n
           (\<lambda>i j old. fadd (rows ?h ! i ! j) (fdiv (fmul (?g ! i) (?g ! j)) ?x)) n 0"
  let ?s2 = "put_H_new ?s1 ?m2"
  have 2: "add_loop ?s1 = Inr ?s2"
    by (rule add_loop_ok) (use sep shapes in simp_all)
  let ?s3 = "?s2\<lparr>vheap := (vheap ?s2)(vnext ?s2 := ?hq), vnext := Suc (vnext ?s2), Hdq := vnext ?s2\<rparr>"
  have 3: "compute_Hdq K ?s2 = Inr ?s3"
    using shapes sep by (simp add: compute_Hdq_def np_dot_mv_def square_def)
  let ?s4 = "?s3\<lparr>dqHdq := ?d\<rparr>"
  have 4: "compute_dqHdq K ?s3 = Inr ?s4"
    using shapes sep by (simp add: compute_dqHdq_def np_dot_def square_def)
  let ?m5 = "partial_map ?m2 n (\<lambda>i j old. fsub old (fdiv (fmul (?hq ! i) (?hq ! j)) ?d)) n 0"
  have 5: "sub_loop ?s4 = Inr (put_H_new ?s4 ?m5)"
  proof (rule sub_loop_ok)
    show "length (vheap ?s4 (Hdq ?s4)) = n" using shapes by (simp add: square_def)
    show "square (mheap ?s4 (H_new ?s4)) n" by (simp add: put_H_new_def partial_map_square)
    show "Nintco ?s4 = n" using shapes by simp
    show "mheap ?s4 (H_new ?s4) = ?m2" by (simp add: put_H_new_def)
    show "vheap ?s4 (Hdq ?s4) = ?hq" by simp
    show "dqHdq ?s4 = ?d" by simp
  qed
  have 6: "put_H_new ?s4 ?m5 = after_update K s"
    unfolding partial_map_bfgs
    using shapes by (simp add: after_update_def put_H_new_def Let_def)
  show ?thesis
    unfolding bfgs_update_def by (simp add: and_then_def 1 2 3 4 5 6 del: put_sel)
qed

lemma after_update_sel:
  "mheap (after_update K s) (H_new (after_update K s))
     = bfgs_matrix (Nintco s) (mheap s (H s)) (vheap s (dg s)) (gq (after_update K s))
         (vheap (after_update K s) (Hdq (after_update K s))) (dqHdq (after_update K s))"
  "gq (after_update K s) = ddot K (vheap s (dq s)) (vheap s (dg s))"
  "vheap (after_update K s) (Hdq (after_update K s))
     = map (dgemv K (mheap s (H s)) (vheap s (dq s))) [0..<nrows (mheap s (H s))]"
  "dqHdq (after_update K s)
     = ddot K (vheap s (dq s)) (vheap (after_update K s) (Hdq (after_update K s)))"
  by (simp_all add: after_update_def Let_def)


subsection \<open>The state at the update\<close>

lemma setslice_length: "setslice v t = Inr w \<Longrightarrow> length w = length v"
  by (auto simp: setslice_def split: if_splits)

lemma assign_dq_Inr:
  "assign_dq s = Inr t \<Longrightarrow>
     \<exists>v. t = s\<lparr>vheap := (vheap s)(dq s := v)\<rparr> \<and> length v = length (vheap s (dq s))"
  by (auto simp: assign_dq_def raised_def split: sum.splits dest: setslice_length)

lemma assign_dg_Inr:
  "assign_dg s = Inr t \<Longrightarrow>
     \<exists>v. t = s\<lparr>vheap := (vheap s)(dg s := v)\<rparr> \<and> length v = length (vheap s (dg s))"
  by (auto simp: assign_dg_def raised_def split: sum.splits dest: setslice_length)

lemma zeros2_square: "square (zeros2 n n) n"
  by (simp add: zeros2_def square_def rect_def nrows_def list_all_length)

lemma kernel_entry_facts:
  assumes "kernel_entry s0 s"
  shows "H_new s \<noteq> H s" "dq s < vnext s" "dg s < vnext s"
    "mheap s (H_new s) = zeros2 (Nintco s) (Nintco s)"
    "length (vheap s (dg s)) = Nintco s"
    "mheap s (H s) = mheap s0 (H s0)" "Nintco s = Nintco s0" "H s = H s0"
    "length (vheap s (dq s)) = length (vheap s0 (dq s0))"
proof -
  from assms have a: "H s0 < mnext s0" "dq s0 < vnext s0"
    and d: "displacements (allocate s0) = Inr s" by (simp_all add: kernel_entry_def)
  from d obtain s1 where 1: "assign_dq (allocate s0) = Inr s1" and 2: "assign_dg s1 = Inr s"
    by (auto simp: displacements_def and_then_def split: sum.splits)
  from assign_dq_Inr[OF 1] obtain v where
    s1: "s1 = (allocate s0)\<lparr>vheap := (vheap (allocate s0))(dq (allocate s0) := v)\<rparr>"
    and v: "length v = length (vheap (allocate s0) (dq (allocate s0)))" by blast
  from assign_dg_Inr[OF 2] obtain w where
    s: "s = s1\<lparr>vheap := (vheap s1)(dg s1 := w)\<rparr>"
    and w: "length w = length (vheap s1 (dg s1))" by blast
  show "H_new s \<noteq> H s" "dq s < vnext s" "dg s < vnext s"
    "mheap s (H_new s) = zeros2 (Nintco s) (Nintco s)"
    "length (vheap s (dg s)) = Nintco s"
    "mheap s (H s) = mheap s0 (H s0)" "Nintco s = Nintco s0" "H s = H s0"
    "length (vheap s (dq s)) = length (vheap s0 (dq s0))"
    using a v w unfolding s s1
    by (auto simp: allocate_def alloc_dg_def alloc_H_new_def zeros1_def)
qed



subsection \<open>What the update leaves alone\<close>

lemma kernel_frame_refl: "kernel_frame s s"
  by (simp add: kernel_frame_def)

lemma kernel_frame_trans: "kernel_frame a b \<Longrightarrow> kernel_frame b c \<Longrightarrow> kernel_frame a c"
  by (auto simp: kernel_frame_def)

lemma final_simps [simp]: "final (Inr s) = s" "final (Inl (e, s)) = s" "final (raised s e) = s"
  by (simp_all add: final_def raised_def)

lemma for_in_final:
  assumes step: "\<And>i t. R t (final (body i t))"
    and refl: "\<And>t. R t t" and trans: "\<And>a b c. R a b \<Longrightarrow> R b c \<Longrightarrow> R a c"
  shows "R s (final (for_in xs body s))"
proof (induction xs arbitrary: s)
  case Nil
  show ?case by (simp add: refl)
next
  case (Cons i xs)
  show ?case
  proof (cases "body i s")
    case (Inl p)
    then show ?thesis using step[of s i] by (cases p) simp
  next
    case (Inr s')
    then have "R s s'" using step[of s i] by simp
    then show ?thesis using Inr Cons.IH[of s'] trans by simp
  qed
qed

lemma and_then_final:
  assumes "R s (final r)" and "\<And>t. R t (final (f t))"
    and trans: "\<And>a b c. R a b \<Longrightarrow> R b c \<Longrightarrow> R a c"
  shows "R s (final (and_then r f))"
proof (cases r)
  case (Inl p)
  then show ?thesis using assms(1) by (cases p) (simp add: and_then_def)
next
  case (Inr t)
  then show ?thesis using assms(1) assms(2)[of t] trans by (simp add: and_then_def)
qed

lemma compute_gq_frame: "kernel_frame s (final (compute_gq K s))"
  by (simp add: compute_gq_def kernel_frame_def split: sum.splits)

lemma compute_dqHdq_frame: "kernel_frame s (final (compute_dqHdq K s))"
  by (simp add: compute_dqHdq_def kernel_frame_def split: sum.splits)

lemma compute_Hdq_frame: "kernel_frame s (final (compute_Hdq K s))"
  by (simp add: compute_Hdq_def kernel_frame_def split: sum.splits)

lemma add_term_frame: "kernel_frame s (final (add_term i j s))"
  by (simp add: add_term_def kernel_frame_def split: sum.splits)

lemma sub_term_frame: "kernel_frame s (final (sub_term i j s))"
  by (simp add: sub_term_def kernel_frame_def split: sum.splits)

lemma for_in_frame:
  assumes "\<And>i t. kernel_frame t (final (body i t))"
  shows "kernel_frame s (final (for_in xs body s))"
proof (rule for_in_final[where R=kernel_frame])
  show "kernel_frame t (final (body i t))" for i t by (rule assms)
  show "kernel_frame t t" for t by (rule kernel_frame_refl)
  show "kernel_frame a b \<Longrightarrow> kernel_frame b c \<Longrightarrow> kernel_frame a c" for a b c
    by (rule kernel_frame_trans)
qed

lemma and_then_frame:
  assumes "kernel_frame s (final r)" and "\<And>t. kernel_frame t (final (f t))"
  shows "kernel_frame s (final (and_then r f))"
proof (rule and_then_final[where R=kernel_frame])
  show "kernel_frame s (final r)" by (rule assms(1))
  show "kernel_frame t (final (f t))" for t by (rule assms(2))
  show "kernel_frame a b \<Longrightarrow> kernel_frame b c \<Longrightarrow> kernel_frame a c" for a b c
    by (rule kernel_frame_trans)
qed

lemma add_loop_frame: "kernel_frame s (final (add_loop s))"
  unfolding add_loop_def by (rule for_in_frame, rule for_in_frame, rule add_term_frame)

lemma sub_loop_frame: "kernel_frame s (final (sub_loop s))"
  unfolding sub_loop_def by (rule for_in_frame, rule for_in_frame, rule sub_term_frame)

lemma bfgs_update_frame: "kernel_frame s (final (bfgs_update K s))"
  unfolding bfgs_update_def
  by (rule and_then_frame, rule and_then_frame, rule and_then_frame, rule and_then_frame,
      rule compute_gq_frame, rule add_loop_frame, rule compute_Hdq_frame,
      rule compute_dqHdq_frame, rule sub_loop_frame)

lemma cell_final:
  "final (cell K s0) = (case displacements (allocate s0) of
      Inl (e, t) \<Rightarrow> t | Inr s \<Rightarrow> final (bfgs_update K s))"
  by (simp add: cell_def and_then_def final_def split: sum.splits)

lemma assign_dq_mheap:
  "mheap (final (assign_dq s)) = mheap s \<and> H (final (assign_dq s)) = H s \<and>
   H_new (final (assign_dq s)) = H_new s"
  by (simp add: assign_dq_def split: sum.splits)

lemma assign_dg_mheap:
  "mheap (final (assign_dg s)) = mheap s \<and> H (final (assign_dg s)) = H s \<and>
   H_new (final (assign_dg s)) = H_new s"
  by (simp add: assign_dg_def split: sum.splits)

lemma displacements_mheap:
  "mheap (final (displacements s)) = mheap s \<and> H (final (displacements s)) = H s \<and>
   H_new (final (displacements s)) = H_new s"
  using assign_dq_mheap[of s] assign_dg_mheap
  by (cases "assign_dq s") (auto simp: displacements_def and_then_def)



subsection \<open>Runs that end normally have matching shapes\<close>

lemma compute_gq_Inr:
  "compute_gq K s = Inr t \<Longrightarrow>
     length (vheap s (dq s)) = length (vheap s (dg s)) \<and> t = s\<lparr>gq := ddot K (vheap s (dq s)) (vheap s (dg s))\<rparr>"
  by (auto simp: compute_gq_def np_dot_def raised_def split: if_splits)

lemma compute_Hdq_Inr:
  "compute_Hdq K s = Inr t \<Longrightarrow>
     ncols (mheap s (H s)) = length (vheap s (dq s)) \<and>
     t = s\<lparr>vheap := (vheap s)(vnext s := map (dgemv K (mheap s (H s)) (vheap s (dq s))) [0..<nrows (mheap s (H s))]),
           vnext := Suc (vnext s), Hdq := vnext s\<rparr>"
  by (auto simp: compute_Hdq_def np_dot_mv_def raised_def split: if_splits)

lemma compute_dqHdq_Inr:
  "compute_dqHdq K s = Inr t \<Longrightarrow> length (vheap s (dq s)) = length (vheap s (Hdq s))"
  by (auto simp: compute_dqHdq_def np_dot_def raised_def split: if_splits)

lemma bfgs_update_Inr_stages:
  assumes "bfgs_update K s = Inr s'"
  obtains s1 s2 s3 s4 where "compute_gq K s = Inr s1" "add_loop s1 = Inr s2"
    "compute_Hdq K s2 = Inr s3" "compute_dqHdq K s3 = Inr s4" "sub_loop s4 = Inr s'"
  using assms unfolding bfgs_update_def and_then_def by (auto split: sum.splits)

lemma bfgs_update_Inr_shapes:
  assumes e: "kernel_entry s0 s" and r: "bfgs_update K s = Inr s'"
  shows "nrows (mheap s (H s)) = Nintco s \<and> ncols (mheap s (H s)) = Nintco s \<and>
         length (vheap s (dq s)) = Nintco s"
proof -
  note f = kernel_entry_facts[OF e]
  from r obtain s1 s2 s3 s4 where st: "compute_gq K s = Inr s1" "add_loop s1 = Inr s2"
    "compute_Hdq K s2 = Inr s3" "compute_dqHdq K s3 = Inr s4"
    by (rule bfgs_update_Inr_stages)
  from compute_gq_Inr[OF st(1)] f(5)
  have q: "length (vheap s (dq s)) = Nintco s"
    and s1: "s1 = s\<lparr>gq := ddot K (vheap s (dq s)) (vheap s (dg s))\<rparr>" by simp_all
  have "kernel_frame s1 s2" using add_loop_frame[of s1] st(2) by simp
  then have k: "dq s2 = dq s" "H s2 = H s" "vnext s \<le> vnext s2"
    "vheap s2 (dq s) = vheap s (dq s)" "mheap s2 (H s) = mheap s (H s)"
    using f(1,2) by (simp_all add: kernel_frame_def s1)
  from compute_Hdq_Inr[OF st(3)] k
  have c: "ncols (mheap s (H s)) = length (vheap s (dq s))"
    and s3: "s3 = s2\<lparr>vheap := (vheap s2)(vnext s2 := map (dgemv K (mheap s (H s)) (vheap s (dq s))) [0..<nrows (mheap s (H s))]),
           vnext := Suc (vnext s2), Hdq := vnext s2\<rparr>" by simp_all
  have "dq s < vnext s2" using f(2) k(3) by simp
  then have "length (vheap s (dq s)) = nrows (mheap s (H s))"
    using compute_dqHdq_Inr[OF st(4)] k unfolding s3 by simp
  with c q show ?thesis by simp
qed



subsection \<open>Two runs side by side\<close>

lemma related_simps [simp]:
  "related E R (Inr s) (Inr t) = R s t"
  "related E R (Inl (e, s)) (Inl (e', t)) = (e = e' \<and> E s t)"
  "related E R (Inl p) (Inr t) = False"
  "related E R (Inr s) (Inl p) = False"
  "related E R (raised s e) (raised t e') = (e = e' \<and> E s t)"
  by (simp_all add: related_def raised_def split: prod.splits)

lemma agree_same: "agree k s t \<Longrightarrow> same_H_new s t"
  by (simp add: agree_def same_H_new_def)

lemma for_in_related:
  assumes "\<And>i s t. R s t \<Longrightarrow> related E R (body i s) (body' i t)" and "R s t"
  shows "related E R (for_in xs body s) (for_in xs body' t)"
  using assms(2)
proof (induction xs arbitrary: s t)
  case Nil
  then show ?case by simp
next
  case (Cons i xs)
  from assms(1)[OF Cons.prems, of i] show ?case
    by (cases "body i s"; cases "body' i t") (auto simp: Cons.IH)
qed

lemma and_then_related:
  assumes "related E R r r'" and "\<And>s t. R s t \<Longrightarrow> related E R' (f s) (f' t)"
  shows "related E R' (and_then r f) (and_then r' f')"
  using assms by (cases r; cases r') (auto simp: and_then_def)

lemma compute_gq_related:
  "agree 0 s t \<Longrightarrow> related same_H_new (agree 1) (compute_gq K s) (compute_gq K t)"
  by (auto simp: compute_gq_def agree_def same_H_new_def np_dot_def)

lemma add_term_related:
  "agree 1 s t \<Longrightarrow> related same_H_new (agree 1) (add_term i j s) (add_term i j t)"
  by (auto simp: add_term_def agree_def same_H_new_def getitem1_def getitem2_def setitem2_def)

lemma add_loop_related:
  assumes a: "agree 1 s t"
  shows "related same_H_new (agree 1) (add_loop s) (add_loop t)"
proof -
  have n: "Nintco s = Nintco t" using a by (simp add: agree_def)
  show ?thesis
    unfolding add_loop_def n
  proof (rule for_in_related[where R="agree 1"])
    fix i s' t' assume b: "agree 1 s' t'"
    then have m: "Nintco s' = Nintco t'" by (simp add: agree_def)
    show "related same_H_new (agree 1) (for_in (py_range (Nintco s')) (add_term i) s')
            (for_in (py_range (Nintco t')) (add_term i) t')"
      unfolding m by (rule for_in_related[where R="agree 1"]) (rule add_term_related, assumption, rule b)
  qed (rule a)
qed

lemma compute_Hdq_related:
  "agree 1 s t \<Longrightarrow> related same_H_new (agree 2) (compute_Hdq K s) (compute_Hdq K t)"
  by (auto simp: compute_Hdq_def agree_def same_H_new_def np_dot_mv_def)

lemma compute_dqHdq_related:
  "agree 2 s t \<Longrightarrow> related same_H_new (agree 3) (compute_dqHdq K s) (compute_dqHdq K t)"
  by (auto simp: compute_dqHdq_def agree_def same_H_new_def np_dot_def)

lemma sub_term_related:
  "agree 3 s t \<Longrightarrow> related same_H_new (agree 3) (sub_term i j s) (sub_term i j t)"
  by (auto simp: sub_term_def agree_def same_H_new_def getitem1_def getitem2_def setitem2_def)

lemma sub_loop_related:
  assumes a: "agree 3 s t"
  shows "related same_H_new (agree 3) (sub_loop s) (sub_loop t)"
proof -
  have n: "Nintco s = Nintco t" using a by (simp add: agree_def)
  show ?thesis
    unfolding sub_loop_def n
  proof (rule for_in_related[where R="agree 3"])
    fix i s' t' assume b: "agree 3 s' t'"
    then have m: "Nintco s' = Nintco t'" by (simp add: agree_def)
    show "related same_H_new (agree 3) (for_in (py_range (Nintco s')) (sub_term i) s')
            (for_in (py_range (Nintco t')) (sub_term i) t')"
      unfolding m by (rule for_in_related[where R="agree 3"]) (rule sub_term_related, assumption, rule b)
  qed (rule a)
qed

lemma bfgs_update_related:
  assumes "agree 0 s t"
  shows "related same_H_new (agree 3) (bfgs_update K s) (bfgs_update K t)"
  unfolding bfgs_update_def
  by (intro and_then_related[where R="agree 3" and R'="agree 3"]
            and_then_related[where R="agree 2" and R'="agree 3"]
            and_then_related[where R="agree 1" and R'="agree 2"]
            and_then_related[where R="agree 1" and R'="agree 1"]
            compute_gq_related assms add_loop_related compute_Hdq_related
            compute_dqHdq_related sub_loop_related)

lemma related_mono:
  "related E R r r' \<Longrightarrow> (\<And>s t. R s t \<Longrightarrow> R' s t) \<Longrightarrow> related E R' r r'"
  by (cases r; cases r') auto



subsection \<open>Negation and subtraction\<close>

lemma map2_fsub_neg: "map2 fsub a b = map2 fsub (map fneg b) (map fneg a)"
proof (induction a arbitrary: b)
  case Nil
  then show ?case by simp
next
  case (Cons x a)
  then show ?case by (cases b) (simp_all add: fsub_neg_swap[of x])
qed

lemma np_subtract_gradients:
  "np_subtract f1 f2 = gradient_displacement (gradient_of f1) (gradient_of f2)"
proof -
  consider "length f1 = length f2" | "length f1 \<noteq> length f2" "length f1 = 1"
    | "length f1 \<noteq> length f2" "length f1 \<noteq> 1" "length f2 = 1"
    | "length f1 \<noteq> length f2" "length f1 \<noteq> 1" "length f2 \<noteq> 1" by blast
  then show ?thesis
  proof cases
    case 1
    then show ?thesis
      using map2_fsub_neg[of f1 f2]
      by (simp add: np_subtract_def gradient_displacement_def gradient_of_def)
  next
    case 2
    then have "length f2 \<noteq> 1" by simp
    with 2 show ?thesis
      by (cases f1) (simp_all add: np_subtract_def gradient_displacement_def gradient_of_def
          fsub_neg_swap[symmetric] comp_def)
  next
    case 3
    then show ?thesis
      by (cases f2) (simp_all add: np_subtract_def gradient_displacement_def gradient_of_def
          fsub_neg_swap[symmetric] comp_def)
  next
    case 4
    then show ?thesis
      by (simp add: np_subtract_def gradient_displacement_def gradient_of_def)
  qed
qed

subsection \<open>The formula, element by element\<close>

lemma bfgs_update_from_entry:
  assumes "kernel_entry s0 s" and "Nintco s = n" and "square (mheap s (H s)) n"
    and "length (vheap s (dq s)) = n"
  shows "bfgs_update K s = Inr (after_update K s)"
proof -
  note f = kernel_entry_facts[OF assms(1)]
  show ?thesis
    by (rule bfgs_update_ok[where n=n]) (use f assms zeros2_square[of n] in simp_all)
qed

lemma after_update_entry:
  assumes "Nintco s = n" and "i < n" and "j < n"
  shows "getitem2 (mheap (after_update K s) (H_new (after_update K s))) i j
     = Inr (bfgs_entry (mheap s (H s)) (vheap s (dg s)) (gq (after_update K s))
              (vheap (after_update K s) (Hdq (after_update K s))) (dqHdq (after_update K s)) i j)"
  using assms by (simp add: after_update_sel(1) getitem2_def bfgs_matrix_def nrows_def)


lemma bfgs_entry_zero_divisor:
  assumes "is_zero x \<or> is_zero d"
  shows "\<not> is_finite (bfgs_entry h g x hq d i j)"
  unfolding bfgs_entry_def
  using assms by (auto intro!: fsub_not_finite fadd_not_finite fdiv_zero_not_finite)


subsection \<open>The concrete runs\<close>

lemma notebook_entry:
  assumes "length q2 = length q1" "length step = length q1" "length f1 = n" "length f2 = n"
  shows "displacements (allocate (notebook n h step q1 q2 f1 f2)) =
     Inr ((allocate (notebook n h step q1 q2 f1 f2))
            \<lparr>vheap := (vheap (allocate (notebook n h step q1 q2 f1 f2)))
                        (0 := map2 fsub q2 q1, 5 := map2 fsub f1 f2)\<rparr>)"
  using assms
  by (simp add: notebook_def displacements_def and_then_def assign_dq_def assign_dg_def
      allocate_def alloc_dg_def alloc_H_new_def np_subtract_def setslice_def raised_def zeros1_def)

lemma notebook_at_update:
  assumes "length q2 = length q1" "length step = length q1" "length f1 = n" "length f2 = n"
    and "s0 = notebook n h step q1 q2 f1 f2"
  shows "kernel_entry s0 (at_update s0)"
    "Nintco (at_update s0) = n"
    "mheap (at_update s0) (H (at_update s0)) = h"
    "vheap (at_update s0) (dq (at_update s0)) = map2 fsub q2 q1"
    "vheap (at_update s0) (dg (at_update s0)) = map2 fsub f1 f2"
    "mheap (at_update s0) (H_new (at_update s0)) = zeros2 n n"
    "H_new (at_update s0) \<noteq> H (at_update s0)"
    "dq (at_update s0) < vnext (at_update s0)"
proof -
  note e = notebook_entry[OF assms(1-4), of h]
  show "kernel_entry s0 (at_update s0)"
    unfolding assms(5) at_update_def kernel_entry_def e by (simp add: notebook_def)
  show "Nintco (at_update s0) = n"
    "mheap (at_update s0) (H (at_update s0)) = h"
    "vheap (at_update s0) (dq (at_update s0)) = map2 fsub q2 q1"
    "vheap (at_update s0) (dg (at_update s0)) = map2 fsub f1 f2"
    "mheap (at_update s0) (H_new (at_update s0)) = zeros2 n n"
    "H_new (at_update s0) \<noteq> H (at_update s0)"
    "dq (at_update s0) < vnext (at_update s0)"
    unfolding assms(5) at_update_def e
    by (simp_all add: notebook_def allocate_def alloc_dg_def alloc_H_new_def)
qed

lemma demo2_at:
  "kernel_entry demo2 (at_update demo2)"
  "Nintco (at_update demo2) = 2"
  "mheap (at_update demo2) (H (at_update demo2)) = real_matrix 2 [[2, 0], [0, 1]]"
  "vheap (at_update demo2) (dq (at_update demo2)) = [Fin 1, Fin 1]"
  "vheap (at_update demo2) (dg (at_update demo2)) = [Fin 1, Fin 1]"
  "mheap (at_update demo2) (H_new (at_update demo2)) = zeros2 2 2"
  "H_new (at_update demo2) \<noteq> H (at_update demo2)"
  "dq (at_update demo2) < vnext (at_update demo2)"
  using notebook_at_update[OF _ _ _ _ demo2_def] by (simp_all add: fsub_exact)


lemma orthogonal_at:
  "kernel_entry orthogonal (at_update orthogonal)"
  "Nintco (at_update orthogonal) = 2"
  "mheap (at_update orthogonal) (H (at_update orthogonal)) = real_matrix 2 [[1, 0], [0, 1]]"
  "vheap (at_update orthogonal) (dq (at_update orthogonal)) = [Fin 1, Fin 0]"
  "vheap (at_update orthogonal) (dg (at_update orthogonal)) = [Fin 0, Fin 1]"
  "mheap (at_update orthogonal) (H_new (at_update orthogonal)) = zeros2 2 2"
  "H_new (at_update orthogonal) \<noteq> H (at_update orthogonal)"
  "dq (at_update orthogonal) < vnext (at_update orthogonal)"
  using notebook_at_update[OF _ _ _ _ orthogonal_def] by (simp_all add: fsub_exact)

lemma converged_at:
  "kernel_entry converged (at_update converged)"
  "Nintco (at_update converged) = 1"
  "mheap (at_update converged) (H (at_update converged)) = real_matrix 1 [[1]]"
  "vheap (at_update converged) (dq (at_update converged)) = [Fin 0]"
  "vheap (at_update converged) (dg (at_update converged)) = [Fin 0]"
  "mheap (at_update converged) (H_new (at_update converged)) = zeros2 1 1"
  "H_new (at_update converged) \<noteq> H (at_update converged)"
  "dq (at_update converged) < vnext (at_update converged)"
  using notebook_at_update[OF _ _ _ _ converged_def] by (simp_all add: fsub_exact)

lemma wide_at:
  "kernel_entry wide (at_update wide)"
  "Nintco (at_update wide) = 1"
  "mheap (at_update wide) (H (at_update wide)) = \<lparr>ncols = 2, rows = [[Fin 1, Fin 5]]\<rparr>"
  "vheap (at_update wide) (dq (at_update wide)) = [Fin 1]"
  "vheap (at_update wide) (dg (at_update wide)) = [Fin 1]"
  "mheap (at_update wide) (H_new (at_update wide)) = zeros2 1 1"
  "H_new (at_update wide) \<noteq> H (at_update wide)"
  "dq (at_update wide) < vnext (at_update wide)"
  using notebook_at_update[OF _ _ _ _ wide_def] by (simp_all add: fsub_exact)

lemma long_step_at:
  "kernel_entry long_step (at_update long_step)"
  "Nintco (at_update long_step) = 1"
  "mheap (at_update long_step) (H (at_update long_step)) = real_matrix 1 [[1]]"
  "vheap (at_update long_step) (dq (at_update long_step)) = [Fin 1, Fin 1]"
  "vheap (at_update long_step) (dg (at_update long_step)) = [Fin 1]"
  "mheap (at_update long_step) (H_new (at_update long_step)) = zeros2 1 1"
  "H_new (at_update long_step) \<noteq> H (at_update long_step)"
  "dq (at_update long_step) < vnext (at_update long_step)"
  using notebook_at_update[OF _ _ _ _ long_step_def] by (simp_all add: fsub_exact)


lemma relocated_at:
  "kernel_entry relocated (at_update relocated)"
  "Nintco (at_update relocated) = 2"
  "mheap (at_update relocated) (H (at_update relocated)) = real_matrix 2 [[2, 0], [0, 1]]"
  "vheap (at_update relocated) (dq (at_update relocated)) = [Fin 1, Fin 1]"
  "vheap (at_update relocated) (dg (at_update relocated)) = [Fin 1, Fin 1]"
proof -
  have e: "displacements (allocate relocated) =
     Inr ((allocate relocated)\<lparr>vheap := (vheap (allocate relocated))(3 := [Fin 1, Fin 1], 9 := [Fin 1, Fin 1])\<rparr>)"
    by (simp add: relocated_def displacements_def and_then_def assign_dq_def assign_dg_def
      allocate_def alloc_dg_def alloc_H_new_def np_subtract_def setslice_def fsub_exact raised_def zeros1_def)
  show "kernel_entry relocated (at_update relocated)"
    unfolding at_update_def kernel_entry_def e by (simp add: relocated_def)
  show "Nintco (at_update relocated) = 2"
  "mheap (at_update relocated) (H (at_update relocated)) = real_matrix 2 [[2, 0], [0, 1]]"
  "vheap (at_update relocated) (dq (at_update relocated)) = [Fin 1, Fin 1]"
  "vheap (at_update relocated) (dg (at_update relocated)) = [Fin 1, Fin 1]"
    unfolding at_update_def e
    by (simp_all add: relocated_def allocate_def alloc_dg_def alloc_H_new_def)
qed

lemma upt_2: "[0..<2] = [0, 1]"
  by (simp add: upt_rec)


lemma displacements_empty:
  assumes "vheap s (dq s) = []" "vheap s (dg s) = []" "vheap s (q_1 s) = []" "vheap s (q_2 s) = []"
    "vheap s (f_q1 s) = []" "vheap s (f_q2 s) = []"
  shows "displacements s = Inr (s\<lparr>vheap := (vheap s)(dq s := [], dg s := [])\<rparr>)"
proof -
  have 1: "assign_dq s = Inr (s\<lparr>vheap := (vheap s)(dq s := [])\<rparr>)"
    using assms by (simp add: assign_dq_def np_subtract_def setslice_def)
  have 2: "assign_dg (s\<lparr>vheap := (vheap s)(dq s := [])\<rparr>)
             = Inr (s\<lparr>vheap := (vheap s)(dq s := [], dg s := [])\<rparr>)"
    using assms by (simp add: assign_dg_def np_subtract_def setslice_def)
  show ?thesis by (simp add: displacements_def and_then_def 1 2)
qed


lemma demo2_after:
  "bfgs_update textbook (at_update demo2) = Inr (after_update textbook (at_update demo2))"
  "gq (after_update textbook (at_update demo2)) = Fin 2"
  "vheap (after_update textbook (at_update demo2)) (Hdq (after_update textbook (at_update demo2)))
     = [Fin 2, Fin 1]"
  "dqHdq (after_update textbook (at_update demo2)) = Fin 3"
proof -
  show "bfgs_update textbook (at_update demo2) = Inr (after_update textbook (at_update demo2))"
    by (rule bfgs_update_from_entry[OF demo2_at(1) demo2_at(2)])
       (simp_all add: demo2_at square_def real_matrix_def rect_def nrows_def)
  show "gq (after_update textbook (at_update demo2)) = Fin 2"
    by (simp add: after_update_sel(2) demo2_at textbook_def inner_def fadd_exact fmul_exact)
  show h: "vheap (after_update textbook (at_update demo2)) (Hdq (after_update textbook (at_update demo2)))
     = [Fin 2, Fin 1]"
    by (simp add: after_update_sel(3) demo2_at textbook_def inner_def real_matrix_def nrows_def
        upt_2 fadd_exact fmul_exact)
  show "dqHdq (after_update textbook (at_update demo2)) = Fin 3"
    unfolding after_update_sel(4) h
    by (simp add: demo2_at textbook_def inner_def fadd_exact fmul_exact)
qed


lemma orthogonal_after:
  "bfgs_update textbook (at_update orthogonal) = Inr (after_update textbook (at_update orthogonal))"
  "gq (after_update textbook (at_update orthogonal)) = Fin 0"
  "vheap (after_update textbook (at_update orthogonal)) (Hdq (after_update textbook (at_update orthogonal)))
     = [Fin 1, Fin 0]"
  "dqHdq (after_update textbook (at_update orthogonal)) = Fin 1"
  "mheap (after_update textbook (at_update orthogonal)) (H_new (after_update textbook (at_update orthogonal)))
     = \<lparr>ncols = 2, rows = [[NaN, NaN], [NaN, PInf]]\<rparr>"
proof -
  show "bfgs_update textbook (at_update orthogonal) = Inr (after_update textbook (at_update orthogonal))"
    by (rule bfgs_update_from_entry[OF orthogonal_at(1) orthogonal_at(2)])
       (simp_all add: orthogonal_at square_def real_matrix_def rect_def nrows_def)
  show g: "gq (after_update textbook (at_update orthogonal)) = Fin 0"
    by (simp add: after_update_sel(2) orthogonal_at textbook_def inner_def fadd_exact fmul_exact)
  show h: "vheap (after_update textbook (at_update orthogonal)) (Hdq (after_update textbook (at_update orthogonal)))
     = [Fin 1, Fin 0]"
    by (simp add: after_update_sel(3) orthogonal_at textbook_def inner_def real_matrix_def nrows_def
        upt_2 fadd_exact fmul_exact)
  show d: "dqHdq (after_update textbook (at_update orthogonal)) = Fin 1"
    unfolding after_update_sel(4) h
    by (simp add: orthogonal_at textbook_def inner_def fadd_exact fmul_exact)
  show "mheap (after_update textbook (at_update orthogonal)) (H_new (after_update textbook (at_update orthogonal)))
     = \<lparr>ncols = 2, rows = [[NaN, NaN], [NaN, PInf]]\<rparr>"
    unfolding after_update_sel(1) g h d
    by (simp add: orthogonal_at bfgs_matrix_def bfgs_entry_def real_matrix_def upt_2
        fmul_exact fdiv_exact fdiv_by_zero fadd_NaN fsub_NaN fadd_PInf fsub_PInf)
qed

lemma converged_after:
  "bfgs_update textbook (at_update converged) = Inr (after_update textbook (at_update converged))"
  "gq (after_update textbook (at_update converged)) = Fin 0"
  "vheap (after_update textbook (at_update converged)) (Hdq (after_update textbook (at_update converged)))
     = [Fin 0]"
  "dqHdq (after_update textbook (at_update converged)) = Fin 0"
  "mheap (after_update textbook (at_update converged)) (H_new (after_update textbook (at_update converged)))
     = \<lparr>ncols = 1, rows = [[NaN]]\<rparr>"
proof -
  show "bfgs_update textbook (at_update converged) = Inr (after_update textbook (at_update converged))"
    by (rule bfgs_update_from_entry[OF converged_at(1) converged_at(2)])
       (simp_all add: converged_at square_def real_matrix_def rect_def nrows_def)
  show g: "gq (after_update textbook (at_update converged)) = Fin 0"
    by (simp add: after_update_sel(2) converged_at textbook_def inner_def fadd_exact fmul_exact)
  show h: "vheap (after_update textbook (at_update converged)) (Hdq (after_update textbook (at_update converged)))
     = [Fin 0]"
    by (simp add: after_update_sel(3) converged_at textbook_def inner_def real_matrix_def nrows_def
        fadd_exact fmul_exact)
  show d: "dqHdq (after_update textbook (at_update converged)) = Fin 0"
    unfolding after_update_sel(4) h
    by (simp add: converged_at textbook_def inner_def fadd_exact fmul_exact)
  show "mheap (after_update textbook (at_update converged)) (H_new (after_update textbook (at_update converged)))
     = \<lparr>ncols = 1, rows = [[NaN]]\<rparr>"
    unfolding after_update_sel(1) g h d
    by (simp add: converged_at bfgs_matrix_def bfgs_entry_def real_matrix_def
        fmul_exact fdiv_by_zero fadd_NaN fsub_NaN)
qed


section \<open>The claims\<close>

subsection \<open>C1: the update computes the BFGS formula\<close>

text \<open>
  Claim C1. For an \<open>n \<times> n\<close> array \<open>H\<close> and vectors \<open>dq\<close>, \<open>dg\<close> of length \<open>n\<close>
  the update runs to its end, with \<open>gq = np.dot(dq, dg)\<close>, \<open>Hdq = np.dot(H, dq)\<close> and
  \<open>dqHdq = np.dot(dq, Hdq)\<close>, and leaves
  \<open>H_new[i,j] = H[i,j] + dg[i] * dg[j] / gq - Hdq[i] * Hdq[j] / dqHdq\<close> for all
  \<open>i, j < n\<close>, where \<open>+\<close>, \<open>-\<close>, \<open>*\<close> and \<open>/\<close> are the operations on doubles, applied
  in the order in which the cell applies them. This holds for every BLAS library \<open>K\<close>
  and whatever the denominators are. (The length of \<open>dg\<close> is \<open>n\<close> by its allocation.)
\<close>

theorem bfgs_update_formula:
  assumes "kernel_entry s0 s" and "Nintco s = n"
    and "square (mheap s (H s)) n" and "length (vheap s (dq s)) = n"
    and "i < n" and "j < n"
  shows "\<exists>s'. bfgs_update K s = Inr s' \<and>
           np_dot K (vheap s (dq s)) (vheap s (dg s)) = Inr (gq s') \<and>
           np_dot_mv K (mheap s (H s)) (vheap s (dq s)) = Inr (vheap s' (Hdq s')) \<and>
           np_dot K (vheap s (dq s)) (vheap s' (Hdq s')) = Inr (dqHdq s') \<and>
           getitem2 (mheap s' (H_new s')) i j =
             Inr (fsub (fadd (rows (mheap s (H s)) ! i ! j)
                             (fdiv (fmul (vheap s (dg s) ! i) (vheap s (dg s) ! j)) (gq s')))
                       (fdiv (fmul (vheap s' (Hdq s') ! i) (vheap s' (Hdq s') ! j)) (dqHdq s')))"
proof -
  let ?s' = "after_update K s"
  note f = kernel_entry_facts[OF assms(1)]
  have "bfgs_update K s = Inr ?s'" by (rule bfgs_update_from_entry[OF assms(1-4)])
  moreover have "np_dot K (vheap s (dq s)) (vheap s (dg s)) = Inr (gq ?s')"
    using f(5) assms(2,4) by (simp add: np_dot_def after_update_sel(2))
  moreover have "np_dot_mv K (mheap s (H s)) (vheap s (dq s)) = Inr (vheap ?s' (Hdq ?s'))"
    using assms(3,4) by (simp add: np_dot_mv_def after_update_sel(3) square_def)
  moreover have "np_dot K (vheap s (dq s)) (vheap ?s' (Hdq ?s')) = Inr (dqHdq ?s')"
    using assms(3,4) by (simp add: np_dot_def after_update_sel square_def)
  moreover have "getitem2 (mheap ?s' (H_new ?s')) i j =
             Inr (fsub (fadd (rows (mheap s (H s)) ! i ! j)
                             (fdiv (fmul (vheap s (dg s) ! i) (vheap s (dg s) ! j)) (gq ?s')))
                       (fdiv (fmul (vheap ?s' (Hdq ?s') ! i) (vheap ?s' (Hdq ?s') ! j)) (dqHdq ?s')))"
    using after_update_entry[OF assms(2,5,6), of K] by (simp only: bfgs_entry_def)
  ultimately show ?thesis by blast
qed

text \<open>
  At \<open>demo2\<close>: \<open>gq = 2\<close>, \<open>Hdq = (2, 1)\<close>, \<open>dqHdq = 3\<close>, and
  \<open>H_new[0,1] = 0 + 1/2 - 2/3\<close> in doubles, which is \<open>-1501199875790165 / 2^53\<close>
  (printed as \<open>-0.16666666666666663\<close>), not \<open>-1/6\<close>.
\<close>

theorem bfgs_update_formula_witness:
  "\<exists>s'. bfgs_update textbook (at_update demo2) = Inr s' \<and>
     gq s' = Fin 2 \<and> vheap s' (Hdq s') = [Fin 2, Fin 1] \<and> dqHdq s' = Fin 3 \<and>
     getitem2 (mheap s' (H_new s')) 0 1 = Inr (Fin (- 1501199875790165 / 9007199254740992))"
proof -
  have h: "square (mheap (at_update demo2) (H (at_update demo2))) 2"
    "length (vheap (at_update demo2) (dq (at_update demo2))) = 2" "(0::nat) < 2" "(1::nat) < 2"
    by (simp_all add: demo2_at square_def real_matrix_def rect_def nrows_def)
  from bfgs_update_formula[OF demo2_at(1) demo2_at(2) h, of textbook]
  obtain s' where u: "bfgs_update textbook (at_update demo2) = Inr s'"
    and e: "getitem2 (mheap s' (H_new s')) 0 1 =
             Inr (fsub (fadd (rows (mheap (at_update demo2) (H (at_update demo2))) ! 0 ! 1)
                    (fdiv (fmul (vheap (at_update demo2) (dg (at_update demo2)) ! 0)
                                (vheap (at_update demo2) (dg (at_update demo2)) ! 1)) (gq s')))
                    (fdiv (fmul (vheap s' (Hdq s') ! 0) (vheap s' (Hdq s') ! 1)) (dqHdq s')))"
    by blast
  from u have s': "s' = after_update textbook (at_update demo2)" by (simp add: demo2_after(1))
  have "getitem2 (mheap s' (H_new s')) 0 1 = Inr (Fin (- 1501199875790165 / 9007199254740992))"
    unfolding e unfolding s' by (simp add: demo2_after demo2_at real_matrix_def demo2_entry)
  with u show ?thesis unfolding s' by (simp add: demo2_after)
qed

subsection \<open>C2: symmetry\<close>




subsection \<open>C3: vanishing denominators\<close>

text \<open>
  Claim C3 says that the update is skipped when \<open>|gq|\<close> or \<open>|dqHdq|\<close> is below the
  floor (\<open>1e-8\<close> by default). At \<open>orthogonal\<close> the product \<open>gq\<close> is zero, and the update
  is carried out all the same: it ends normally, having divided by \<open>gq\<close>, with
  infinities and NaN in \<open>H_new\<close>.
\<close>

theorem zero_gq_still_updates:
  "bfgs_update textbook (at_update orthogonal) = Inr (after_update textbook (at_update orthogonal)) \<and>
   gq (after_update textbook (at_update orthogonal)) = Fin 0 \<and> \<bar>0::real\<bar> < 1 / 10 ^ 8 \<and>
   mheap (after_update textbook (at_update orthogonal)) (H_new (after_update textbook (at_update orthogonal)))
     = \<lparr>ncols = 2, rows = [[NaN, NaN], [NaN, PInf]]\<rparr>"
  by (simp add: orthogonal_after)

text \<open>
  Claim C3, as amended. The cell has no floor for the denominators and no skipped
  outcome: it ends normally or with a numpy exception. Whichever way it ends, and
  whatever the denominators are, \<open>H\<close> still refers to the same array and that array is
  exactly as it was: the cell never writes to it.
\<close>

theorem cell_never_writes_H:
  assumes "H s0 < mnext s0"
  shows "H (final (cell K s0)) = H s0 \<and> mheap (final (cell K s0)) (H s0) = mheap s0 (H s0)"
proof -
  let ?s1 = "allocate s0"
  let ?s2 = "final (displacements ?s1)"
  have a: "H ?s1 = H s0" "H_new ?s1 = mnext s0" "mheap ?s1 (H s0) = mheap s0 (H s0)"
    using assms by (simp_all add: allocate_def alloc_dg_def alloc_H_new_def)
  have d: "H ?s2 = H s0" "H_new ?s2 = mnext s0" "mheap ?s2 (H s0) = mheap s0 (H s0)"
    using displacements_mheap[of ?s1] a by simp_all
  show ?thesis
  proof (cases "displacements ?s1")
    case (Inl p)
    then have "final (cell K s0) = ?s2" by (cases p) (simp add: cell_final)
    then show ?thesis using d by simp
  next
    case (Inr s)
    then have c: "final (cell K s0) = final (bfgs_update K s)" and s: "?s2 = s"
      by (simp_all add: cell_final)
    have "kernel_frame s (final (bfgs_update K s))" by (rule bfgs_update_frame)
    then show ?thesis using d assms unfolding c s by (simp add: kernel_frame_def)
  qed
qed

text \<open>
  At \<open>orthogonal\<close>, where \<open>gq = 0\<close>: \<open>H\<close> is the identity matrix before and after.
\<close>

theorem cell_never_writes_H_witness:
  "H (final (cell textbook orthogonal)) = 0 \<and>
   mheap (final (cell textbook orthogonal)) 0 = real_matrix 2 [[1, 0], [0, 1]]"
proof -
  have "H orthogonal < mnext orthogonal" by (simp add: orthogonal_def notebook_def)
  from cell_never_writes_H[OF this, of textbook] show ?thesis
    by (simp add: orthogonal_def notebook_def)
qed

subsection \<open>C4: no check of the denominators\<close>

text \<open>
  Claim C4 says that no NaN or infinity is ever returned: the divisions are guarded, and
  a vanishing denominator is reported as a skipped update. The cell has no guard and no
  such report. At a converged step, where \<open>dq = dg = 0\<close>, both denominators are zero,
  the cell ends normally, and the only element of \<open>H_new\<close> is NaN.
\<close>

theorem zero_step_gives_nan:
  "cell textbook converged = Inr (after_update textbook (at_update converged)) \<and>
   gq (after_update textbook (at_update converged)) = Fin 0 \<and>
   dqHdq (after_update textbook (at_update converged)) = Fin 0 \<and>
   mheap (after_update textbook (at_update converged)) (H_new (after_update textbook (at_update converged)))
     = \<lparr>ncols = 1, rows = [[NaN]]\<rparr>"
proof -
  have e: "displacements (allocate converged) = Inr (at_update converged)"
    using converged_at(1) by (simp add: kernel_entry_def)
  have "cell textbook converged = Inr (after_update textbook (at_update converged))"
    by (simp add: cell_def e and_then_def converged_after(1))
  then show ?thesis by (simp add: converged_after)
qed

text \<open>
  Claim C4, as amended. With arrays of matching shapes the update is always applied and
  ends normally; when \<open>gq\<close> or \<open>dqHdq\<close> is zero (\<open>0.0\<close> or \<open>-0.0\<close>), it divides by it,
  and every element of \<open>H_new\<close> is then an infinity or NaN.
\<close>

theorem zero_divisor_spoils_H_new:
  assumes "kernel_entry s0 s" and "Nintco s = n"
    and "square (mheap s (H s)) n" and "length (vheap s (dq s)) = n"
    and "is_zero (ddot K (vheap s (dq s)) (vheap s (dg s))) \<or>
         is_zero (ddot K (vheap s (dq s))
                    (map (dgemv K (mheap s (H s)) (vheap s (dq s))) [0..<n]))"
    and "i < n" and "j < n"
  shows "\<exists>s' x. bfgs_update K s = Inr s' \<and> (is_zero (gq s') \<or> is_zero (dqHdq s')) \<and>
           getitem2 (mheap s' (H_new s')) i j = Inr x \<and> \<not> is_finite x"
proof -
  let ?s' = "after_update K s"
  have u: "bfgs_update K s = Inr ?s'" by (rule bfgs_update_from_entry[OF assms(1-4)])
  have z: "is_zero (gq ?s') \<or> is_zero (dqHdq ?s')"
    using assms(3,5) by (simp add: after_update_sel square_def)
  note e = after_update_entry[OF assms(2,6,7), of K]
  from bfgs_entry_zero_divisor[OF z] u z e show ?thesis by blast
qed

text \<open>
  At \<open>orthogonal\<close>, where \<open>gq = 0\<close> and \<open>dqHdq = 1\<close>: \<open>H_new[1,1] = 1 + 1/0 - 0/1\<close>
  is \<open>inf\<close>.
\<close>

theorem zero_divisor_spoils_H_new_witness:
  "\<exists>s'. bfgs_update textbook (at_update orthogonal) = Inr s' \<and> gq s' = Fin 0 \<and> dqHdq s' = Fin 1 \<and>
     getitem2 (mheap s' (H_new s')) 1 1 = Inr PInf \<and> \<not> is_finite PInf"
proof -
  have h: "square (mheap (at_update orthogonal) (H (at_update orthogonal))) 2"
    "length (vheap (at_update orthogonal) (dq (at_update orthogonal))) = 2"
    "is_zero (ddot textbook (vheap (at_update orthogonal) (dq (at_update orthogonal)))
                (vheap (at_update orthogonal) (dg (at_update orthogonal)))) \<or>
     is_zero (ddot textbook (vheap (at_update orthogonal) (dq (at_update orthogonal)))
                (map (dgemv textbook (mheap (at_update orthogonal) (H (at_update orthogonal)))
                        (vheap (at_update orthogonal) (dq (at_update orthogonal)))) [0..<2]))"
    "(1::nat) < 2"
    using orthogonal_after(2)
    by (simp_all add: orthogonal_at square_def real_matrix_def rect_def nrows_def after_update_sel(2))
  from zero_divisor_spoils_H_new[OF orthogonal_at(1) orthogonal_at(2) h(1,2,3,4,4)]
  obtain s' x where u: "bfgs_update textbook (at_update orthogonal) = Inr s'"
    and e: "getitem2 (mheap s' (H_new s')) 1 1 = Inr x" "\<not> is_finite x"
    by blast
  from u have s': "s' = after_update textbook (at_update orthogonal)" by (simp add: orthogonal_after(1))
  from e(1) have "x = PInf" unfolding s' by (simp add: orthogonal_after(5) getitem2_def nrows_def)
  with u e show ?thesis unfolding s' by (simp add: orthogonal_after)
qed

subsection \<open>C5: shapes that do not match\<close>

text \<open>
  Claim C5 says that the update fails before it computes anything. At \<open>wide\<close> the
  array in \<open>H\<close> is not square; \<open>gq\<close> is computed and the first loop nest runs and
  stores \<open>H_new[0,0] = 1 + 1 * 1 / 1\<close>, and only \<open>np.dot(H, dq)\<close> raises.
\<close>

theorem wide_fails_after_first_loop:
  "bfgs_update textbook (at_update wide)
     = Inl (ValueError, put_H_new ((at_update wide)\<lparr>gq := Fin 1\<rparr>) \<lparr>ncols = 1, rows = [[Fin 2]]\<rparr>) \<and>
   mheap (at_update wide) (H_new (at_update wide)) = \<lparr>ncols = 1, rows = [[Fin 0]]\<rparr>"
proof -
  let ?e = "at_update wide"
  have 1: "compute_gq textbook ?e = Inr (?e\<lparr>gq := Fin 1\<rparr>)"
    by (simp add: compute_gq_def np_dot_def wide_at textbook_def inner_def fadd_exact fmul_exact)
  have 2: "add_loop (?e\<lparr>gq := Fin 1\<rparr>)
            = Inr (put_H_new (?e\<lparr>gq := Fin 1\<rparr>) \<lparr>ncols = 1, rows = [[Fin 2]]\<rparr>)"
    by (simp add: add_loop_def py_range_def add_term_def getitem2_def getitem1_def setitem2_def
        nrows_def wide_at zeros2_def put_H_new_def fadd_exact fmul_exact fdiv_exact)
  have 3: "compute_Hdq textbook (put_H_new (?e\<lparr>gq := Fin 1\<rparr>) \<lparr>ncols = 1, rows = [[Fin 2]]\<rparr>)
            = Inl (ValueError, put_H_new (?e\<lparr>gq := Fin 1\<rparr>) \<lparr>ncols = 1, rows = [[Fin 2]]\<rparr>)"
    using wide_at(7)[symmetric] by (simp add: compute_Hdq_def np_dot_mv_def wide_at raised_def)
  have "bfgs_update textbook ?e
     = Inl (ValueError, put_H_new (?e\<lparr>gq := Fin 1\<rparr>) \<lparr>ncols = 1, rows = [[Fin 2]]\<rparr>)"
    by (simp only: bfgs_update_def and_then_def 1 2 3 sum.case)
  then show ?thesis by (simp add: wide_at zeros2_def)
qed

text \<open>
  Claim C5, as amended. If the array in \<open>H\<close> is not of shape \<open>Nintco \<times> Nintco\<close>, or
  \<open>dq\<close> is not of length \<open>Nintco\<close>, the update does not end normally: it ends with one
  of numpy's exceptions (there is no other kind of error), and \<open>H\<close> refers to the same,
  unchanged array. If the length of \<open>dq\<close> is the one that is wrong, the exception is the
  \<open>ValueError\<close> of \<open>gq = np.dot(dq, dg)\<close> and nothing has been written at all.
\<close>

theorem mismatch_fails:
  assumes "kernel_entry s0 s"
    and "\<not> (nrows (mheap s (H s)) = Nintco s \<and> ncols (mheap s (H s)) = Nintco s \<and>
            length (vheap s (dq s)) = Nintco s)"
  shows "\<exists>e t. bfgs_update K s = Inl (e, t) \<and> H t = H s \<and> mheap t (H t) = mheap s (H s) \<and>
           (length (vheap s (dq s)) \<noteq> Nintco s \<longrightarrow> e = ValueError \<and> t = s)"
proof (cases "bfgs_update K s")
  case (Inr s')
  with bfgs_update_Inr_shapes[OF assms(1)] assms(2) show ?thesis by blast
next
  case (Inl p)
  obtain e t where p: "p = (e, t)" by (cases p)
  note f = kernel_entry_facts[OF assms(1)]
  have "kernel_frame s t" using bfgs_update_frame[where K=K and s=s] Inl p by simp
  then have h: "H t = H s" "mheap t (H t) = mheap s (H s)" using f(1) by (simp_all add: kernel_frame_def)
  have "e = ValueError \<and> t = s" if "length (vheap s (dq s)) \<noteq> Nintco s"
  proof -
    have "compute_gq K s = Inl (ValueError, s)"
      using that f(5) by (simp add: compute_gq_def np_dot_def raised_def)
    then have "bfgs_update K s = Inl (ValueError, s)"
      by (simp add: bfgs_update_def and_then_def)
    with Inl p show ?thesis by simp
  qed
  with Inl p h show ?thesis by simp
qed

text \<open>
  At \<open>long_step\<close>, where \<open>dq\<close> has length 2 and \<open>Nintco = 1\<close>, and at \<open>wide\<close>, where
  the array in \<open>H\<close> is not square.
\<close>

theorem mismatch_fails_witness:
  "bfgs_update textbook (at_update long_step) = Inl (ValueError, at_update long_step) \<and>
   mheap (at_update long_step) (H (at_update long_step)) = real_matrix 1 [[1]] \<and>
   (\<exists>e t. bfgs_update textbook (at_update wide) = Inl (e, t) \<and>
      mheap t (H t) = \<lparr>ncols = 2, rows = [[Fin 1, Fin 5]]\<rparr>)"
proof -
  have "\<not> (nrows (mheap (at_update long_step) (H (at_update long_step))) = Nintco (at_update long_step) \<and>
            ncols (mheap (at_update long_step) (H (at_update long_step))) = Nintco (at_update long_step) \<and>
            length (vheap (at_update long_step) (dq (at_update long_step))) = Nintco (at_update long_step))"
    by (simp add: long_step_at)
  from mismatch_fails[OF long_step_at(1) this, of textbook]
  have 1: "bfgs_update textbook (at_update long_step) = Inl (ValueError, at_update long_step)"
    by (auto simp: long_step_at)
  have "\<not> (nrows (mheap (at_update wide) (H (at_update wide))) = Nintco (at_update wide) \<and>
            ncols (mheap (at_update wide) (H (at_update wide))) = Nintco (at_update wide) \<and>
            length (vheap (at_update wide) (dq (at_update wide))) = Nintco (at_update wide))"
    by (simp add: wide_at)
  from mismatch_fails[OF wide_at(1) this, of textbook]
  have 2: "\<exists>e t. bfgs_update textbook (at_update wide) = Inl (e, t) \<and>
      mheap t (H t) = \<lparr>ncols = 2, rows = [[Fin 1, Fin 5]]\<rparr>"
    by (auto simp: wide_at)
  from 1 2 show ?thesis by (simp add: long_step_at)
qed

subsection \<open>C6: no coordinates\<close>

text \<open>
  Claim C6. With no internal coordinates (\<open>Nintco = 0\<close>, every array empty) the cell
  ends normally, not with an exception, and \<open>H_new\<close> is the empty \<open>0 \<times> 0\<close> matrix.
\<close>

theorem empty_update_succeeds:
  assumes "H s0 < mnext s0" and "dq s0 < vnext s0"
    and n0: "Nintco s0 = 0" and h0: "mheap s0 (H s0) = zeros2 0 0"
    and q0: "vheap s0 (dq s0) = []" and "vheap s0 (q_1 s0) = []" and "vheap s0 (q_2 s0) = []"
    and "vheap s0 (f_q1 s0) = []" and "vheap s0 (f_q2 s0) = []"
  shows "\<exists>s'. cell K s0 = Inr s' \<and> mheap s' (H_new s') = \<lparr>ncols = 0, rows = []\<rparr>"
proof -
  let ?s1 = "allocate s0"
  let ?s = "?s1\<lparr>vheap := (vheap ?s1)(dq ?s1 := [], dg ?s1 := [])\<rparr>"
  have d: "displacements ?s1 = Inr ?s"
    by (rule displacements_empty)
       (use assms in \<open>simp_all add: allocate_def alloc_dg_def alloc_H_new_def zeros1_def\<close>)
  have e: "kernel_entry s0 ?s" using assms(1,2) d by (simp add: kernel_entry_def)
  note f = kernel_entry_facts[OF e]
  have n: "Nintco ?s = 0" using f(7) n0 by simp
  have u: "bfgs_update K ?s = Inr (after_update K ?s)"
  proof (rule bfgs_update_ok[where n=0])
    show "square (mheap ?s (H ?s)) 0" using f(6) h0 zeros2_square[of 0] by simp
    show "square (mheap ?s (H_new ?s)) 0" using f(4) n zeros2_square[of 0] by simp
    show "length (vheap ?s (dq ?s)) = 0" using f(9) q0 by simp
    show "length (vheap ?s (dg ?s)) = 0" using f(5) n by simp
  qed (use f n in simp_all)
  have "mheap (after_update K ?s) (H_new (after_update K ?s)) = \<lparr>ncols = 0, rows = []\<rparr>"
    using n by (simp add: after_update_def Let_def bfgs_matrix_def)
  moreover have "cell K s0 = bfgs_update K ?s" by (simp add: cell_def d and_then_def)
  ultimately show ?thesis using u by simp
qed

theorem empty_update_succeeds_witness:
  "\<exists>s'. cell textbook empty_notebook = Inr s' \<and> mheap s' (H_new s') = \<lparr>ncols = 0, rows = []\<rparr>"
  by (rule empty_update_succeeds) (simp_all add: empty_notebook_def notebook_def)

subsection \<open>C7: the result depends on the inputs only\<close>

text \<open>
  Claim C7. Two runs of the update, with the same BLAS library, whose inputs \<open>Nintco\<close>,
  \<open>H\<close>, \<open>dq\<close> and \<open>dg\<close> hold equal values end the same way, both normally or both
  with the same exception, and with equal arrays in \<open>H_new\<close>. Nothing else in the two
  stores matters: not the addresses, not the other arrays, not what \<open>gq\<close>, \<open>Hdq\<close> and
  \<open>dqHdq\<close> held before.
\<close>

theorem update_deterministic:
  assumes "kernel_entry s0 s" and "kernel_entry t0 t"
    and "Nintco s = Nintco t" and "mheap s (H s) = mheap t (H t)"
    and "vheap s (dq s) = vheap t (dq t)" and "vheap s (dg s) = vheap t (dg t)"
  shows "related same_H_new same_H_new (bfgs_update K s) (bfgs_update K t)"
proof -
  note f = kernel_entry_facts[OF assms(1)] and g = kernel_entry_facts[OF assms(2)]
  have "agree 0 s t"
    using assms(3-6) f(1-4) g(1-4) by (simp add: agree_def)
  then have "related same_H_new (agree 3) (bfgs_update K s) (bfgs_update K t)"
    by (rule bfgs_update_related)
  then show ?thesis by (rule related_mono) (rule agree_same)
qed

text \<open>
  \<open>demo2\<close> and \<open>relocated\<close> give the update the same inputs from stores that differ
  in everything else.
\<close>

theorem update_deterministic_witness:
  "related same_H_new same_H_new (bfgs_update textbook (at_update demo2))
     (bfgs_update textbook (at_update relocated))
   \<and> gq demo2 \<noteq> gq relocated \<and> H demo2 \<noteq> H relocated \<and>
   vheap demo2 (dq demo2) \<noteq> vheap relocated (dq relocated)"
proof -
  have "related same_H_new same_H_new (bfgs_update textbook (at_update demo2))
     (bfgs_update textbook (at_update relocated))"
    by (rule update_deterministic[OF demo2_at(1) relocated_at(1)]) (simp_all add: demo2_at relocated_at)
  then show ?thesis by (simp add: demo2_def notebook_def relocated_def)
qed

subsection \<open>C8: the sign of the gradient displacement\<close>

text \<open>
  Claim C8. The statement \<open>dg[:] = f_q1 - f_q2\<close> does exactly what
  \<open>dg[:] = g_2 - g_1\<close> would do with the gradients \<open>g_1 = - f_q1\<close> and
  \<open>g_2 = - f_q2\<close>: the vector formed from the forces is the current gradient minus the
  previous one, in doubles, element by element.
\<close>

theorem dg_is_gradient_displacement:
  "assign_dg s =
     (case gradient_displacement (gradient_of (vheap s (f_q1 s))) (gradient_of (vheap s (f_q2 s))) of
        Inl e \<Rightarrow> raised s e
      | Inr t \<Rightarrow>
          (case setslice (vheap s (dg s)) t of
             Inl e \<Rightarrow> raised s e
           | Inr v \<Rightarrow> Inr (s\<lparr>vheap := (vheap s)(dg s := v)\<rparr>)))"
  unfolding assign_dg_def np_subtract_gradients ..

subsection \<open>C9: the update writes to the new matrix only\<close>

text \<open>
  Claim C9. When the update ends normally, \<open>H\<close>, \<open>dq\<close> and \<open>dg\<close> refer to the same
  arrays as when it started, and these hold the same values. \<open>H_new\<close> refers to the
  array the cell allocated, and it is the only array allocated before the update
  whose content has changed.
\<close>

theorem update_leaves_inputs:
  assumes "kernel_entry s0 s" and "bfgs_update K s = Inr s'"
  shows "H s' = H s \<and> dq s' = dq s \<and> dg s' = dg s \<and>
         mheap s' (H s') = mheap s (H s) \<and>
         vheap s' (dq s') = vheap s (dq s) \<and>
         vheap s' (dg s') = vheap s (dg s) \<and>
         H_new s' = mnext s0 \<and>
         (\<forall>a. a \<noteq> H_new s' \<longrightarrow> mheap s' a = mheap s a) \<and>
         (\<forall>a. a < vnext s \<longrightarrow> vheap s' a = vheap s a)"
proof -
  note f = kernel_entry_facts[OF assms(1)]
  have k: "kernel_frame s s'" using bfgs_update_frame[where K=K and s=s] assms(2) by simp
  have "H_new s = mnext s0"
    using assms(1) by (auto simp: kernel_entry_def displacements_def and_then_def allocate_def
        alloc_dg_def alloc_H_new_def split: sum.splits dest!: assign_dq_Inr assign_dg_Inr)
  then show ?thesis using k f(1-3) by (simp add: kernel_frame_def)
qed

theorem update_leaves_inputs_witness:
  "mheap (after_update textbook (at_update demo2)) (H (after_update textbook (at_update demo2)))
     = real_matrix 2 [[2, 0], [0, 1]] \<and>
   vheap (after_update textbook (at_update demo2)) (dq (after_update textbook (at_update demo2)))
     = [Fin 1, Fin 1] \<and>
   vheap (after_update textbook (at_update demo2)) (dg (after_update textbook (at_update demo2)))
     = [Fin 1, Fin 1] \<and>
   H_new (after_update textbook (at_update demo2)) = mnext demo2"
proof -
  from update_leaves_inputs[OF demo2_at(1) demo2_after(1)] show ?thesis
    by (elim conjE) (simp add: demo2_at)
qed

subsection \<open>C10: the divisions are by nonzero numbers\<close>



end
